theory Spec2Isabelle
  imports Complex_Main "HOL-Library.Word"
begin

section \<open>Numbers and boxes\<close>

text \<open>
  The tensors of \<^verbatim>\<open>utils/utils.py\<close> hold floating-point numbers. They are modelled by
  the reals: every operation of the source is the exact operation here, rounding,
  infinities and NaN are left out. The constant \<^verbatim>\<open>1e-16\<close> of the source is \<open>eps\<close>.

  A box is one row of four columns. In corner form the columns are \<open>(x1, y1, x2, y2)\<close>,
  in centre form \<open>(cx, cy, w, h)\<close>.
\<close>

type_synonym box = "real \<times> real \<times> real \<times> real"

definition eps :: real where
  "eps = 1 / 10 ^ 16"

text \<open>\<^verbatim>\<open>torch.clamp(x, min=m)\<close> on one element.\<close>

definition clamp_min :: "real \<Rightarrow> real \<Rightarrow> real" where
  "clamp_min x m = (if x < m then m else x)"

text \<open>\<^verbatim>\<open>xywh2xyxy\<close>, on one row.\<close>

fun xywh2xyxy :: "box \<Rightarrow> box" where
  "xywh2xyxy (cx, cy, w, h) = (cx - w / 2, cy - h / 2, cx + w / 2, cy + h / 2)"

text \<open>
  \<^verbatim>\<open>bbox_iou(box1, box2, x1y1x2y2)\<close> on one pair of rows. The source works on whole
  tensors, element by element (and broadcasts a single \<open>box1\<close> over the rows of
  \<open>box2\<close>); the callers below map this function over the rows.
\<close>

fun bbox_iou :: "box \<Rightarrow> box \<Rightarrow> bool \<Rightarrow> real" where
  "bbox_iou (a0, a1, a2, a3) (c0, c1, c2, c3) x1y1x2y2 =
    (let (b1_x1, b1_x2, b1_y1, b1_y2, b2_x1, b2_x2, b2_y1, b2_y2) =
           (if \<not> x1y1x2y2
            then (a0 - a2 / 2, a0 + a2 / 2, a1 - a3 / 2, a1 + a3 / 2,
                  c0 - c2 / 2, c0 + c2 / 2, c1 - c3 / 2, c1 + c3 / 2)
            else (a0, a2, a1, a3, c0, c2, c1, c3));
         inter_rect_x1 = max b1_x1 b2_x1;
         inter_rect_y1 = max b1_y1 b2_y1;
         inter_rect_x2 = min b1_x2 b2_x2;
         inter_rect_y2 = min b1_y2 b2_y2;
         inter_area = clamp_min (inter_rect_x2 - inter_rect_x1 + 1) 0
                      * clamp_min (inter_rect_y2 - inter_rect_y1 + 1) 0;
         b1_area = (b1_x2 - b1_x1 + 1) * (b1_y2 - b1_y1 + 1);
         b2_area = (b2_x2 - b2_x1 + 1) * (b2_y2 - b2_y1 + 1)
     in inter_area / (b1_area + b2_area - inter_area + eps))"

text \<open>\<^verbatim>\<open>bbox_wh_iou(wh1, wh2)\<close> for one anchor \<open>wh1\<close> and one row of \<open>wh2\<close>.\<close>

fun bbox_wh_iou :: "real \<times> real \<Rightarrow> real \<times> real \<Rightarrow> real" where
  "bbox_wh_iou (w1, h1) (w2, h2) =
    (let inter_area = min w1 w2 * min h1 h2;
         union_area = (w1 * h1 + eps) + w2 * h2 - inter_area
     in inter_area / union_area)"

section \<open>Library operations of torch and numpy\<close>

text \<open>
  What the source raises is a value of the model: \<open>RuntimeError\<close> stands for torch's
  runtime errors (a reduction over no elements, \<^verbatim>\<open>torch.stack\<close> of an empty list),
  \<open>IndexError\<close> for an index outside a tensor or an array.
\<close>

datatype error = RuntimeError | IndexError

text \<open>
  \<^verbatim>\<open>t.max(dim)\<close> along one line of a tensor: the largest value and the index where it
  first stands. The reduction of no elements raises, which is \<open>None\<close> here.
\<close>

fun max_index_aux :: "real \<Rightarrow> nat \<Rightarrow> nat \<Rightarrow> real list \<Rightarrow> real \<times> nat" where
  "max_index_aux best bi k [] = (best, bi)"
| "max_index_aux best bi k (x # xs) =
     (if best < x then max_index_aux x k (Suc k) xs else max_index_aux best bi (Suc k) xs)"

fun torch_max :: "real list \<Rightarrow> (real \<times> nat) option" where
  "torch_max [] = None"
| "torch_max (x # xs) = Some (max_index_aux x 0 1 xs)"

text \<open>Indexing by a boolean tensor, \<^verbatim>\<open>rows[msk]\<close>: the rows where the mask is true.\<close>

definition boolean_mask :: "bool list \<Rightarrow> 'a list \<Rightarrow> 'a list" where
  "boolean_mask msk rows = map snd (filter fst (zip msk rows))"

text \<open>
  \<^verbatim>\<open>argsort\<close>: the indices that sort the values in ascending order. The model sorts
  stably; numpy and torch leave the order of equal values open.
\<close>

definition argsort :: "real list \<Rightarrow> nat list" where
  "argsort xs = map snd (sort_key fst (zip xs [0 ..< length xs]))"

text \<open>\<^verbatim>\<open>np.unique\<close>: the distinct values, ascending.\<close>

definition np_unique :: "real list \<Rightarrow> real list" where
  "np_unique xs = sort (remdups xs)"

text \<open>\<^verbatim>\<open>cumsum\<close>: the running sums.\<close>

fun cumsum_from :: "real \<Rightarrow> real list \<Rightarrow> real list" where
  "cumsum_from acc [] = []"
| "cumsum_from acc (x # xs) = (acc + x) # cumsum_from (acc + x) xs"

definition cumsum :: "real list \<Rightarrow> real list" where
  "cumsum xs = cumsum_from 0 xs"

text \<open>
  \<^verbatim>\<open>.long()\<close> and \<^verbatim>\<open>.astype("int32")\<close> cut the fraction off, towards zero. The 32-bit
  result is a \<open>32 word\<close>, read as signed by \<open>sint\<close>; a value outside the 32-bit range
  becomes \<open>-2147483648\<close>, as numpy's conversion gives it.
\<close>

definition long :: "real \<Rightarrow> int" where
  "long x = (if 0 \<le> x then \<lfloor>x\<rfloor> else \<lceil>x\<rceil>)"

definition astype_int32 :: "real \<Rightarrow> 32 word" where
  "astype_int32 x =
     (if - (2 ^ 31) \<le> long x \<and> long x < 2 ^ 31 then word_of_int (long x)
      else word_of_int (- (2 ^ 31)))"

text \<open>
  An index into a dimension of size \<open>n\<close>: Python counts a negative index from the end,
  and an index outside \<open>-n ..< n\<close> raises.
\<close>

definition tensor_index :: "nat \<Rightarrow> int \<Rightarrow> nat option" where
  "tensor_index n i =
     (if 0 \<le> i \<and> i < int n then Some (nat i)
      else if - int n \<le> i \<and> i < 0 then Some (nat (int n + i))
      else None)"

text \<open>
  \<^verbatim>\<open>tensor[indices] = values\<close> with index tensors: one write per row, in the order of
  the rows, so that of two writes to one place the later one stays.
\<close>

definition index_put :: "('k \<times> 'v) list \<Rightarrow> ('k \<Rightarrow> 'v) \<Rightarrow> ('k \<Rightarrow> 'v)" where
  "index_put writes tensor = fold (\<lambda>kv t. t(fst kv := snd kv)) writes tensor"

section \<open>Non-maximum suppression\<close>

text \<open>
  One row of the prediction tensor: four box columns, the objectness, then one score
  per class. One row of the result: \<^verbatim>\<open>(x1, y1, x2, y2, object_conf, class_score,
  class_pred)\<close>, the class index stored as a float. The merge loop can store the
  quotient \<open>0 / 0\<close> in the four box columns of a row; the reals have no such value, so
  the box of a detection is optional, and \<open>None\<close> is the row whose four box columns are
  NaN.
\<close>

record pred_row =
  xywh :: box
  obj_conf :: real
  cls_scores :: "real list"

record detection =
  coords :: "box option"
  object_conf :: real
  class_score :: real
  class_pred :: real

fun column :: "nat \<Rightarrow> box \<Rightarrow> real" where
  "column k (c0, c1, c2, c3) =
     (if k = 0 then c0 else if k = 1 then c1 else if k = 2 then c2 else c3)"

text \<open>
  \<^verbatim>\<open>bbox_iou(row0, row) > nms_thres\<close> for the boxes of two rows: an IoU computed from
  NaN is NaN, and a comparison with NaN is false.
\<close>

fun iou_exceeds :: "real \<Rightarrow> box option \<Rightarrow> box option \<Rightarrow> bool" where
  "iou_exceeds nms_thres (Some box0) (Some box1) = (nms_thres < bbox_iou box0 box1 True)"
| "iou_exceeds nms_thres _ _ = False"

text \<open>
  The body of the \<^verbatim>\<open>while\<close> loop, for \<^verbatim>\<open>detections = row0 # others\<close>: the two masks,
  the weights and boxes the mask selects, the assignment to \<^verbatim>\<open>detections[0, :4]\<close>, the
  row appended to \<^verbatim>\<open>keep_boxes\<close> and the new \<^verbatim>\<open>detections\<close>. The rows the mask
  selects hold numbers (a row of NaN is in no mask). Where their weights sum to 0, as
  they do when the mask selects nothing, the source divides by 0 and stores NaN in row
  0: \<open>None\<close>. (With weights of both signs that cancel, the source can store an
  infinity instead; the objectness is in \<open>[0, 1]\<close> and the model does not tell that case
  apart.)
\<close>

definition nms_iteration :: "real \<Rightarrow> detection \<Rightarrow> detection list \<Rightarrow> detection \<times> detection list" where
  "nms_iteration nms_thres row0 others =
    (let detections = row0 # others;
         large_overlap = map (\<lambda>d. iou_exceeds nms_thres (coords row0) (coords d)) detections;
         label_match = map (\<lambda>d. class_pred row0 = class_pred d) detections;
         invalid = map2 (\<and>) large_overlap label_match;
         weights = map object_conf (boolean_mask invalid detections);
         boxes = List.map_filter coords (boolean_mask invalid detections);
         weighted = (\<lambda>k. sum_list (map2 (\<lambda>w b. w * column k b) weights boxes) / sum_list weights);
         row0' = row0\<lparr>coords := (if sum_list weights = 0 then None
                                  else Some (weighted 0, weighted 1, weighted 2, weighted 3))\<rparr>;
         detections' = row0' # others
     in (row0', boolean_mask (map Not invalid) detections'))"

text \<open>
  The loop \<^verbatim>\<open>while detections.size(0)\<close>. It need not end (see below), so it is a
  partial function: \<open>None\<close> is the loop that runs forever. Every round appends one row
  to \<^verbatim>\<open>keep_boxes\<close>.
\<close>

partial_function (option) nms_loop :: "real \<Rightarrow> detection list \<Rightarrow> detection list \<Rightarrow> detection list option" where
  "nms_loop nms_thres detections keep_boxes =
     (case detections of
        [] \<Rightarrow> Some keep_boxes
      | row0 # others \<Rightarrow>
          nms_loop nms_thres (snd (nms_iteration nms_thres row0 others))
            (keep_boxes @ [fst (nms_iteration nms_thres row0 others)]))"

declare nms_loop.simps [code]


text \<open>
  The detections of one image before the loop: the rows that pass the confidence
  filter, sorted by descending \<open>objectness * best class score\<close>, each with its best
  class score and class index. \<open>Inr []\<close> is the image the source skips with
  \<^verbatim>\<open>continue\<close>; a surviving row with no class column makes \<^verbatim>\<open>max(1)\<close> raise.
\<close>

definition nms_detections :: "real \<Rightarrow> pred_row list \<Rightarrow> error + detection list" where
  "nms_detections conf_thres image_pred0 =
    (let image_pred = filter (\<lambda>p. conf_thres \<le> obj_conf p) image_pred0 in
     if image_pred = [] then Inr []
     else case those (map (\<lambda>p. torch_max (cls_scores p)) image_pred) of
        None \<Rightarrow> Inl RuntimeError
      | Some maxima \<Rightarrow>
         (let score = (\<lambda>pm. obj_conf (fst pm) * fst (snd pm));
              image_pred = sort_key (\<lambda>pm. - score pm) (zip image_pred maxima)
          in Inr (map (\<lambda>pm. \<lparr>coords = Some (xywh (fst pm)), object_conf = obj_conf (fst pm),
                     class_score = fst (snd pm), class_pred = real (snd (snd pm))\<rparr>) image_pred)))"

definition nms_image :: "real \<Rightarrow> real \<Rightarrow> pred_row list \<Rightarrow> (error + detection list option) option" where
  "nms_image conf_thres nms_thres image_pred =
    (case nms_detections conf_thres image_pred of
       Inl e \<Rightarrow> Some (Inl e)
     | Inr detections \<Rightarrow>
        (case nms_loop nms_thres detections [] of
           None \<Rightarrow> None
         | Some keep_boxes \<Rightarrow> Some (Inr (if keep_boxes = [] then None else Some keep_boxes))))"

fun nms_images :: "real \<Rightarrow> real \<Rightarrow> pred_row list list \<Rightarrow> (error + detection list option list) option" where
  "nms_images conf_thres nms_thres [] = Some (Inr [])"
| "nms_images conf_thres nms_thres (image_pred # rest) =
     (case nms_image conf_thres nms_thres image_pred of
        None \<Rightarrow> None
      | Some (Inl e) \<Rightarrow> Some (Inl e)
      | Some (Inr out) \<Rightarrow>
          (case nms_images conf_thres nms_thres rest of
             None \<Rightarrow> None
           | Some (Inl e) \<Rightarrow> Some (Inl e)
           | Some (Inr outs) \<Rightarrow> Some (Inr (out # outs))))"

text \<open>
  \<^verbatim>\<open>non_max_suppression(prediction, conf_thres, nms_thres)\<close>: the box columns of every
  row go from centre form to corner form, then each image is processed on its own.
  The result is \<open>None\<close> when a loop does not end, \<open>Some (Inl e)\<close> when the source
  raises, and otherwise the list \<^verbatim>\<open>output\<close>, one entry per image.
\<close>

definition non_max_suppression ::
  "pred_row list list \<Rightarrow> real \<Rightarrow> real \<Rightarrow> (error + detection list option list) option" where
  "non_max_suppression prediction conf_thres nms_thres =
     nms_images conf_thres nms_thres
       (map (map (\<lambda>p. p\<lparr>xywh := xywh2xyxy (xywh p)\<rparr>)) prediction)"


subsection \<open>The merge step in the words of the specification\<close>

text \<open>
  The combined score the candidates are sorted by; the cluster of a candidate \<open>c\<close>: the
  candidates whose IoU with \<open>c\<close> exceeds the threshold and whose class is that of \<open>c\<close>;
  the objectness and the box of the rows of a list that hold numbers; the
  objectness-weighted average of a coordinate over such a list; and \<open>c\<close> with its four
  coordinates replaced by these averages, which are NaN when the objectness sums to 0.
\<close>

definition score :: "detection \<Rightarrow> real" where
  "score d = object_conf d * class_score d"

definition in_cluster :: "real \<Rightarrow> detection \<Rightarrow> detection \<Rightarrow> bool" where
  "in_cluster nms_thres c d =
     (iou_exceeds nms_thres (coords c) (coords d) \<and> class_pred d = class_pred c)"

definition weighted_boxes :: "detection list \<Rightarrow> (real \<times> box) list" where
  "weighted_boxes S = List.map_filter (\<lambda>d. map_option (Pair (object_conf d)) (coords d)) S"

definition weighted_average :: "detection list \<Rightarrow> nat \<Rightarrow> real" where
  "weighted_average S k =
     (\<Sum>wb\<leftarrow>weighted_boxes S. fst wb * column k (snd wb)) / (\<Sum>wb\<leftarrow>weighted_boxes S. fst wb)"

definition merged :: "detection \<Rightarrow> detection list \<Rightarrow> detection" where
  "merged c S =
     c\<lparr>coords := (if (\<Sum>wb\<leftarrow>weighted_boxes S. fst wb) = 0 then None
                  else Some (weighted_average S 0, weighted_average S 1,
                             weighted_average S 2, weighted_average S 3))\<rparr>"

abbreviation by_score :: "detection list \<Rightarrow> bool" where
  "by_score ds \<equiv> sorted_wrt (\<lambda>a b. score b \<le> score a) ds"

text \<open>
  The result of \<^verbatim>\<open>non_max_suppression\<close> is a list of tensors with seven columns. Given
  to the function again, a row is read as a prediction row: its first four columns as
  a centre-form box, the fifth as the objectness, the last two as the scores of two
  classes. (The prediction rows of the model hold numbers: a row of NaN has no
  reading.)
\<close>

definition as_prediction :: "detection \<Rightarrow> pred_row option" where
  "as_prediction d =
     map_option (\<lambda>b. \<lparr>xywh = b, obj_conf = object_conf d,
                       cls_scores = [class_score d, class_pred d]\<rparr>) (coords d)"

section \<open>Average precision\<close>

text \<open>
  The loop of \<^verbatim>\<open>compute_ap\<close>, \<^verbatim>\<open>for i in range(mpre.size - 1, 0, -1)\<close>, with
  \<open>i = Suc k\<close>: it starts at \<open>envelope_loop (length mpre - 1) mpre\<close>.
\<close>

fun envelope_loop :: "nat \<Rightarrow> real list \<Rightarrow> real list" where
  "envelope_loop 0 mpre = mpre"
| "envelope_loop (Suc k) mpre = envelope_loop k (mpre[k := max (mpre ! k) (mpre ! Suc k)])"

text \<open>The padded precision array of \<^verbatim>\<open>compute_ap\<close> after that loop.\<close>

definition precision_envelope :: "real list \<Rightarrow> real list" where
  "precision_envelope precision =
     (let mpre = [0] @ precision @ [0] in envelope_loop (length mpre - 1) mpre)"

text \<open>
  \<^verbatim>\<open>compute_ap(recall, precision)\<close>. Reading \<^verbatim>\<open>mpre[i + 1]\<close> raises when the precision
  curve is shorter than an index where the recall changes.
\<close>

definition compute_ap :: "real list \<Rightarrow> real list \<Rightarrow> error + real" where
  "compute_ap recall precision =
    (let mrec = [0] @ recall @ [1];
         mpre = precision_envelope precision;
         i = filter (\<lambda>k. mrec ! Suc k \<noteq> mrec ! k) [0 ..< length mrec - 1]
     in if list_ex (\<lambda>k. length mpre \<le> Suc k) i then Inl IndexError
        else Inr (sum_list (map (\<lambda>k. (mrec ! Suc k - mrec ! k) * mpre ! Suc k) i)))"

text \<open>
  One round of the loop over the classes in \<^verbatim>\<open>ap_per_class\<close>, on the sorted arrays,
  with the three lists \<^verbatim>\<open>ap\<close>, \<^verbatim>\<open>p\<close>, \<^verbatim>\<open>r\<close> as the state.
\<close>

definition ap_class_step ::
  "real list \<Rightarrow> real list \<Rightarrow> real list \<Rightarrow> real
   \<Rightarrow> real list \<times> real list \<times> real list \<Rightarrow> error + real list \<times> real list \<times> real list" where
  "ap_class_step tp pred_cls target_cls c state =
    (let (ap, p, r) = state;
         i = map (\<lambda>pc. pc = c) pred_cls;
         n_gt = length (filter (\<lambda>tc. tc = c) target_cls);
         n_p = length (filter id i)
     in if n_p = 0 \<and> n_gt = 0 then Inr (ap, p, r)
        else if n_p = 0 \<or> n_gt = 0 then Inr (ap @ [0], p @ [0], r @ [0])
        else
          (let fpc = cumsum (map (\<lambda>t. 1 - t) (boolean_mask i tp));
               tpc = cumsum (boolean_mask i tp);
               recall_curve = map (\<lambda>t. t / (real n_gt + eps)) tpc;
               precision_curve = map2 (\<lambda>t f. t / (t + f)) tpc fpc
           in case compute_ap recall_curve precision_curve of
                Inl e \<Rightarrow> Inl e
              | Inr a \<Rightarrow> Inr (ap @ [a], p @ [last precision_curve], r @ [last recall_curve])))"

fun ap_class_loop ::
  "real list \<Rightarrow> real list \<Rightarrow> real list \<Rightarrow> real list
   \<Rightarrow> real list \<times> real list \<times> real list \<Rightarrow> error + real list \<times> real list \<times> real list" where
  "ap_class_loop tp pred_cls target_cls [] state = Inr state"
| "ap_class_loop tp pred_cls target_cls (c # cs) state =
     (case ap_class_step tp pred_cls target_cls c state of
        Inl e \<Rightarrow> Inl e
      | Inr state' \<Rightarrow> ap_class_loop tp pred_cls target_cls cs state')"

record ap_result =
  res_p :: "real list"
  res_r :: "real list"
  res_ap :: "real list"
  res_f1 :: "real list"
  res_classes :: "32 word list"

text \<open>
  \<^verbatim>\<open>ap_per_class(tp, conf, pred_cls, target_cls)\<close>. The fancy index \<^verbatim>\<open>tp[i]\<close> raises
  when \<^verbatim>\<open>tp\<close> (or \<^verbatim>\<open>pred_cls\<close>) is shorter than \<^verbatim>\<open>conf\<close>.
\<close>

definition ap_per_class :: "real list \<Rightarrow> real list \<Rightarrow> real list \<Rightarrow> real list \<Rightarrow> error + ap_result" where
  "ap_per_class tp0 conf0 pred_cls0 target_cls =
    (let i = argsort (map uminus conf0) in
     if length tp0 < length conf0 \<or> length pred_cls0 < length conf0 then Inl IndexError
     else
      (let tp = map (\<lambda>k. tp0 ! k) i;
           pred_cls = map (\<lambda>k. pred_cls0 ! k) i;
           unique_classes = np_unique target_cls
       in case ap_class_loop tp pred_cls target_cls unique_classes ([], [], []) of
            Inl e \<Rightarrow> Inl e
          | Inr (ap, p, r) \<Rightarrow>
              Inr \<lparr>res_p = p, res_r = r, res_ap = ap,
                   res_f1 = map2 (\<lambda>p r. 2 * p * r / (p + r + eps)) p r,
                   res_classes = map astype_int32 unique_classes\<rparr>))"

section \<open>Matching detections to ground truth\<close>

text \<open>
  One row of the target tensor: the image index, the class label and four box columns
  (corner form for \<^verbatim>\<open>get_batch_statistics\<close>, normalised centre form for
  \<^verbatim>\<open>build_targets\<close>).
\<close>

record target_row =
  sample_index :: real
  target_label :: real
  target_box :: box

text \<open>
  The loop over the detections of one image, with \<^verbatim>\<open>detected_boxes\<close> and
  \<^verbatim>\<open>true_positives\<close> as the state; \<^verbatim>\<open>annotations\<close> is not empty when it runs. For a
  detection whose box is NaN every IoU is NaN and \<^verbatim>\<open>iou >= iou_threshold\<close> is false.
\<close>

fun match_loop ::
  "real \<Rightarrow> target_row list \<Rightarrow> (nat \<times> detection) list \<Rightarrow> nat list \<Rightarrow> real list \<Rightarrow> error + real list" where
  "match_loop iou_threshold annotations [] detected_boxes true_positives = Inr true_positives"
| "match_loop iou_threshold annotations ((pred_i, d) # rest) detected_boxes true_positives =
    (if length detected_boxes = length annotations then Inr true_positives
     else if class_pred d \<notin> set (map target_label annotations)
       then match_loop iou_threshold annotations rest detected_boxes true_positives
     else
       (case coords d of
          None \<Rightarrow> match_loop iou_threshold annotations rest detected_boxes true_positives
        | Some pred_box \<Rightarrow>
           (case torch_max (map (\<lambda>t. bbox_iou pred_box (target_box t) True) annotations) of
              None \<Rightarrow> Inl RuntimeError
            | Some (iou, box_index) \<Rightarrow>
                if iou_threshold \<le> iou \<and> box_index \<notin> set detected_boxes
                then match_loop iou_threshold annotations rest
                       (detected_boxes @ [box_index]) (true_positives[pred_i := 1])
                else match_loop iou_threshold annotations rest detected_boxes true_positives)))"

fun batch_loop ::
  "target_row list \<Rightarrow> real \<Rightarrow> nat \<Rightarrow> detection list option list
   \<Rightarrow> error + (real list \<times> real list \<times> real list) list" where
  "batch_loop targets iou_threshold sample_i [] = Inr []"
| "batch_loop targets iou_threshold sample_i (None # rest) =
     batch_loop targets iou_threshold (Suc sample_i) rest"
| "batch_loop targets iou_threshold sample_i (Some output # rest) =
    (let pred_scores = map object_conf output;
         pred_labels = map class_pred output;
         true_positives = replicate (length output) 0;
         annotations = filter (\<lambda>t. sample_index t = real sample_i) targets
     in case (if annotations \<noteq> []
              then match_loop iou_threshold annotations (enumerate 0 output) [] true_positives
              else Inr true_positives) of
          Inl e \<Rightarrow> Inl e
        | Inr true_positives \<Rightarrow>
            (case batch_loop targets iou_threshold (Suc sample_i) rest of
               Inl e \<Rightarrow> Inl e
             | Inr batch_metrics \<Rightarrow> Inr ((true_positives, pred_scores, pred_labels) # batch_metrics)))"

text \<open>\<^verbatim>\<open>get_batch_statistics(outputs, targets, iou_threshold)\<close>.\<close>

definition get_batch_statistics ::
  "detection list option list \<Rightarrow> target_row list \<Rightarrow> real
   \<Rightarrow> error + (real list \<times> real list \<times> real list) list" where
  "get_batch_statistics outputs targets iou_threshold = batch_loop targets iou_threshold 0 outputs"

text \<open>
  The images of a batch that have detections, each with its index in the batch: the
  images the loop of \<^verbatim>\<open>get_batch_statistics\<close> does not skip, counted from \<open>sample_i\<close>.
\<close>

fun present :: "nat \<Rightarrow> 'a option list \<Rightarrow> (nat \<times> 'a) list" where
  "present sample_i [] = []"
| "present sample_i (None # rest) = present (Suc sample_i) rest"
| "present sample_i (Some output # rest) = (sample_i, output) # present (Suc sample_i) rest"

text \<open>
  A detection can be matched in an image with these ground-truth rows: its class occurs
  among their labels, its box holds numbers, and a row whose IoU with the box is the
  largest of all the rows, of whatever class, reaches the threshold with it.
\<close>

definition matchable :: "real \<Rightarrow> target_row list \<Rightarrow> detection \<Rightarrow> bool" where
  "matchable iou_threshold annotations d =
     (class_pred d \<in> set (map target_label annotations)
      \<and> (case coords d of
           None \<Rightarrow> False
         | Some b \<Rightarrow>
             list_ex (\<lambda>t. iou_threshold \<le> bbox_iou b (target_box t) True
                 \<and> list_all (\<lambda>t'. bbox_iou b (target_box t') True \<le> bbox_iou b (target_box t) True)
                       annotations) annotations))"

section \<open>Target assignment\<close>

text \<open>
  A tensor of shape \<open>(nB, nA, nG, nG)\<close> is modelled by its value at every index
  \<open>(b, a, j, i)\<close>; outside the shape it keeps the value it was filled with. The byte
  tensors of the two masks hold 8-bit words.
\<close>

type_synonym idx = "nat \<times> nat \<times> nat \<times> nat"

record target_tensors =
  iou_scores :: "idx \<Rightarrow> real"
  class_mask :: "idx \<Rightarrow> real"
  obj_mask :: "idx \<Rightarrow> 8 word"
  noobj_mask :: "idx \<Rightarrow> 8 word"
  tx :: "idx \<Rightarrow> real"
  ty :: "idx \<Rightarrow> real"
  tw :: "idx \<Rightarrow> real"
  th :: "idx \<Rightarrow> real"
  tcls :: "idx \<times> nat \<Rightarrow> real"
  tconf :: "idx \<Rightarrow> real"

text \<open>
  The columns \<^verbatim>\<open>target[:, 2:6] * nG\<close> of one row, as \<open>(gx, gy, gw, gh)\<close>.
\<close>

definition target_boxes :: "nat \<Rightarrow> target_row \<Rightarrow> box" where
  "target_boxes nG t =
     (case target_box t of (cx, cy, w, h) \<Rightarrow> (cx * real nG, cy * real nG, w * real nG, h * real nG))"

text \<open>
  One column of \<^verbatim>\<open>ious\<close>: the size-only IoU of every anchor with the row, and
  \<^verbatim>\<open>ious.max(0)\<close> on it, the best IoU and the first anchor that reaches it.
\<close>

definition anchor_ious :: "(real \<times> real) list \<Rightarrow> nat \<Rightarrow> target_row \<Rightarrow> real list" where
  "anchor_ious anchors nG t =
     (case target_boxes nG t of (gx, gy, gw, gh) \<Rightarrow> map (\<lambda>anchor. bbox_wh_iou anchor (gw, gh)) anchors)"

definition best_anchor :: "(real \<times> real) list \<Rightarrow> nat \<Rightarrow> target_row \<Rightarrow> (real \<times> nat) option" where
  "best_anchor anchors nG t = torch_max (anchor_ious anchors nG t)"

text \<open>
  The place \<^verbatim>\<open>(b, best_n, gj, gi)\<close> one row writes to: the four indices as the index
  tensors hold them (\<^verbatim>\<open>.long()\<close> of the image column and of the scaled centre),
  checked against the shape as indexing does.
\<close>

definition target_place :: "nat \<Rightarrow> nat \<Rightarrow> nat \<Rightarrow> (real \<times> real) list \<Rightarrow> target_row \<Rightarrow> idx option" where
  "target_place nB nA nG anchors t =
    (case target_boxes nG t of (gx, gy, gw, gh) \<Rightarrow>
      (case best_anchor anchors nG t of
         None \<Rightarrow> None
       | Some (best_iou, best_n) \<Rightarrow>
          (case (tensor_index nB (long (sample_index t)), tensor_index nA (int best_n),
                 tensor_index nG (long gy), tensor_index nG (long gx)) of
             (Some b, Some n, Some gj, Some gi) \<Rightarrow> Some (b, n, gj, gi)
           | _ \<Rightarrow> None)))"

text \<open>
  The writes of the loop \<^verbatim>\<open>for i, anchor_ious in enumerate(ious.t())\<close> for one row:
  every anchor whose IoU is above \<^verbatim>\<open>ignore_thres\<close>, at the row's image and cell.
\<close>

definition ignore_writes ::
  "(real \<times> real) list \<Rightarrow> nat \<Rightarrow> real \<Rightarrow> target_row \<times> idx \<Rightarrow> (idx \<times> 8 word) list" where
  "ignore_writes anchors nG ignore_thres row =
    (case snd row of (b, n, gj, gi) \<Rightarrow>
       map (\<lambda>a. ((b, a, gj, gi), 0))
         (filter (\<lambda>a. ignore_thres < anchor_ious anchors nG (fst row) ! a) [0 ..< length anchors]))"

text \<open>\<^verbatim>\<open>pred_cls[b, best_n, gj, gi].argmax(-1)\<close> over \<open>nC\<close> classes, \<open>nC > 0\<close>.\<close>

definition argmax_cls :: "(idx \<Rightarrow> nat \<Rightarrow> real) \<Rightarrow> nat \<Rightarrow> idx \<Rightarrow> nat" where
  "argmax_cls pred_cls nC place =
     snd (max_index_aux (pred_cls place 0) 0 1 (map (pred_cls place) [1 ..< nC]))"

text \<open>
  \<^verbatim>\<open>build_targets(pred_boxes, pred_cls, target, anchors, ignore_thres)\<close>. The sizes
  \<open>nB\<close>, \<open>nA\<close>, \<open>nG\<close>, \<open>nC\<close> are those of \<^verbatim>\<open>pred_boxes\<close> and \<^verbatim>\<open>pred_cls\<close>. The source
  raises where \<^verbatim>\<open>torch.stack\<close> gets no anchor, where an index leaves its dimension,
  where the boolean mask over the anchors has not \<open>nA\<close> entries, and where
  \<^verbatim>\<open>argmax\<close> has no class to reduce over.
\<close>

definition build_targets ::
  "(idx \<Rightarrow> box) \<Rightarrow> (idx \<Rightarrow> nat \<Rightarrow> real) \<Rightarrow> nat \<Rightarrow> nat \<Rightarrow> nat \<Rightarrow> nat
   \<Rightarrow> target_row list \<Rightarrow> (real \<times> real) list \<Rightarrow> real \<Rightarrow> error + target_tensors" where
  "build_targets pred_boxes pred_cls nB nA nG nC target anchors ignore_thres =
    (if anchors = [] then Inl RuntimeError
     else case those (map (target_place nB nA nG anchors) target) of
       None \<Rightarrow> Inl IndexError
     | Some places \<Rightarrow>
        if target \<noteq> [] \<and> length anchors \<noteq> nA then Inl IndexError
        else case those (map (\<lambda>t. tensor_index nC (long (target_label t))) target) of
          None \<Rightarrow> Inl IndexError
        | Some labels \<Rightarrow>
           if nC = 0 then Inl RuntimeError
           else
            (let rows = zip target places;
                 gx = (\<lambda>t. fst (target_boxes nG t));
                 gy = (\<lambda>t. fst (snd (target_boxes nG t)));
                 gw = (\<lambda>t. fst (snd (snd (target_boxes nG t))));
                 gh = (\<lambda>t. snd (snd (snd (target_boxes nG t))));
                 best_n = (\<lambda>place. fst (snd place));
                 obj_mask = index_put (map (\<lambda>row. (snd row, 1)) rows) (\<lambda>_. 0);
                 noobj_mask = index_put (map (\<lambda>row. (snd row, 0)) rows) (\<lambda>_. 1);
                 noobj_mask = index_put (concat (map (ignore_writes anchors nG ignore_thres) rows)) noobj_mask;
                 tx = index_put (map (\<lambda>row. (snd row, gx (fst row) - real_of_int \<lfloor>gx (fst row)\<rfloor>)) rows) (\<lambda>_. 0);
                 ty = index_put (map (\<lambda>row. (snd row, gy (fst row) - real_of_int \<lfloor>gy (fst row)\<rfloor>)) rows) (\<lambda>_. 0);
                 tw = index_put (map (\<lambda>row. (snd row,
                        ln (gw (fst row) / fst (anchors ! best_n (snd row)) + eps))) rows) (\<lambda>_. 0);
                 th = index_put (map (\<lambda>row. (snd row,
                        ln (gh (fst row) / snd (anchors ! best_n (snd row)) + eps))) rows) (\<lambda>_. 0);
                 tcls = index_put (map2 (\<lambda>place l. ((place, l), 1)) places labels) (\<lambda>_. 0);
                 class_mask = index_put (map (\<lambda>row. (snd row,
                        if int (argmax_cls pred_cls nC (snd row)) = long (target_label (fst row))
                        then 1 else 0)) rows) (\<lambda>_. 0);
                 iou_scores = index_put (map (\<lambda>row. (snd row,
                        bbox_iou (pred_boxes (snd row)) (target_boxes nG (fst row)) False)) rows) (\<lambda>_. 0)
             in Inr \<lparr>iou_scores = iou_scores, class_mask = class_mask, obj_mask = obj_mask,
                     noobj_mask = noobj_mask, tx = tx, ty = ty, tw = tw, th = th, tcls = tcls,
                     tconf = (\<lambda>place. real (unat (obj_mask place)))\<rparr>))"

section \<open>Geometry: the claims on \<^verbatim>\<open>bbox_iou\<close>\<close>

lemma clamp_min_zero: "clamp_min x 0 = max x 0"
  by (simp add: clamp_min_def max_def)

text \<open>
  Claim C5. For corner-form boxes \<open>A\<close> and \<open>B\<close>, \<open>bbox_iou A B\<close> is
  \<open>I / (areaA + areaB - I + 1e-16)\<close>, where \<open>I\<close> is the product of the two clamped
  side lengths \<open>max (min x2 - max x1 + 1) 0\<close> and \<open>max (min y2 - max y1 + 1) 0\<close>, and the
  area of a box is \<open>(x2 - x1 + 1) * (y2 - y1 + 1)\<close>: the same \<open>+ 1\<close> in the intersection
  and in the areas, and the epsilon in the denominator. It holds for all boxes, so
  also for those with \<open>x2 \<ge> x1\<close> and \<open>y2 \<ge> y1\<close>.
\<close>

theorem bbox_iou_formula:
  "bbox_iou (ax1, ay1, ax2, ay2) (bx1, by1, bx2, by2) True =
     (max (min ax2 bx2 - max ax1 bx1 + 1) 0 * max (min ay2 by2 - max ay1 by1 + 1) 0)
     / ((ax2 - ax1 + 1) * (ay2 - ay1 + 1) + (bx2 - bx1 + 1) * (by2 - by1 + 1)
        - max (min ax2 bx2 - max ax1 bx1 + 1) 0 * max (min ay2 by2 - max ay1 by1 + 1) 0
        + 1 / 10 ^ 16)"
  by (simp add: clamp_min_zero eps_def Let_def)

text \<open>
  Claim C6, as stated: two boxes with no spatial overlap have IoU exactly 0. With the
  \<open>+ 1\<close> of the inclusive-pixel convention this fails for real coordinates: the box
  \<open>(3/2, 0, 5/2, 1)\<close> lies strictly to the right of \<open>(0, 0, 1, 1)\<close>, and the source
  still finds an intersection of width \<open>1/2\<close> and height \<open>2\<close>.
\<close>

theorem bbox_iou_disjoint_counterexample:
  "(1::real) < 3 / 2 \<and> bbox_iou (0, 0, 1, 1) (3 / 2, 0, 5 / 2, 1) True \<noteq> 0"
  by (simp add: clamp_min_def eps_def Let_def)

text \<open>
  Claim C6, amended: two corner-form boxes (\<open>x2 \<ge> x1\<close>, \<open>y2 \<ge> y1\<close>) that are at least
  one unit apart along x or along y (which is what "strictly to the right of" or
  "strictly below" means for integer pixel coordinates) have IoU exactly 0; the
  denominator of the quotient is positive there.
\<close>

theorem bbox_iou_separated:
  assumes "ax1 \<le> ax2" and "ay1 \<le> ay2" and "bx1 \<le> bx2" and "by1 \<le> by2"
    and "ax2 + 1 \<le> bx1 \<or> bx2 + 1 \<le> ax1 \<or> ay2 + 1 \<le> by1 \<or> by2 + 1 \<le> ay1"
  shows "bbox_iou (ax1, ay1, ax2, ay2) (bx1, by1, bx2, by2) True = 0
    \<and> 0 < (ax2 - ax1 + 1) * (ay2 - ay1 + 1) + (bx2 - bx1 + 1) * (by2 - by1 + 1) - 0 + eps"
proof -
  have "clamp_min (min ax2 bx2 - max ax1 bx1 + 1) 0 = 0
      \<or> clamp_min (min ay2 by2 - max ay1 by1 + 1) 0 = 0"
    using assms by (auto simp: clamp_min_def min_def max_def)
  then have "bbox_iou (ax1, ay1, ax2, ay2) (bx1, by1, bx2, by2) True = 0"
    by (auto simp: Let_def)
  moreover have "0 < (ax2 - ax1 + 1) * (ay2 - ay1 + 1)"
    using assms by (intro mult_pos_pos) auto
  moreover have "0 < (bx2 - bx1 + 1) * (by2 - by1 + 1)"
    using assms by (intro mult_pos_pos) auto
  moreover have "0 < eps"
    by (simp add: eps_def)
  ultimately show ?thesis by simp
qed

theorem bbox_iou_separated_witness:
  "bbox_iou (0, 0, 1, 1) (2, 0, 3, 1) True = 0"
  using bbox_iou_separated [of 0 1 0 1 2 3 0 1] by simp

section \<open>Average precision: the claims on \<^verbatim>\<open>compute_ap\<close> and \<^verbatim>\<open>ap_per_class\<close>\<close>

lemma length_envelope_loop: "length (envelope_loop k mpre) = length mpre"
  by (induction k arbitrary: mpre) simp_all

text \<open>
  The invariant of the backward scan: once the loop has come down to \<open>k\<close>, the array
  does not increase from index \<open>k\<close> on; the rounds still to run keep that and extend it
  to the left.
\<close>

lemma envelope_loop_nonincreasing:
  assumes "k < length mpre"
    and "\<And>j. k \<le> j \<Longrightarrow> Suc j < length mpre \<Longrightarrow> mpre ! Suc j \<le> mpre ! j"
    and "Suc j < length mpre"
  shows "envelope_loop k mpre ! Suc j \<le> envelope_loop k mpre ! j"
  using assms
proof (induction k arbitrary: mpre)
  case 0
  then show ?case by simp
next
  case (Suc k)
  let ?m = "mpre[k := max (mpre ! k) (mpre ! Suc k)]"
  have step: "?m ! Suc i \<le> ?m ! i" if "k \<le> i" and "Suc i < length ?m" for i
  proof (cases "i = k")
    case True
    with Suc.prems(1) show ?thesis by simp
  next
    case False
    with that have "Suc k \<le> i" by simp
    with that Suc.prems(2) [of i] False show ?thesis by simp
  qed
  have "envelope_loop k ?m ! Suc j \<le> envelope_loop k ?m ! j"
    using Suc.prems(1,3) by (intro Suc.IH step) simp_all
  then show ?case by simp
qed

lemma length_precision_envelope: "length (precision_envelope precision) = length precision + 2"
  by (simp add: precision_envelope_def Let_def length_envelope_loop del: envelope_loop.simps)

text \<open>
  Claim C10. For any precision curve, the padded precision array that the backward
  maximum scan of \<^verbatim>\<open>compute_ap\<close> leaves is non-increasing along the recall axis: every
  element is greater than or equal to the element at the next index.
\<close>

theorem precision_envelope_nonincreasing:
  assumes "Suc j < length (precision_envelope precision)"
  shows "precision_envelope precision ! Suc j \<le> precision_envelope precision ! j"
proof -
  let ?mpre = "[0] @ precision @ [0]"
  have "envelope_loop (length ?mpre - 1) ?mpre ! Suc j \<le> envelope_loop (length ?mpre - 1) ?mpre ! j"
  proof (rule envelope_loop_nonincreasing)
    show "length ?mpre - 1 < length ?mpre" by simp
    show "?mpre ! Suc i \<le> ?mpre ! i" if "length ?mpre - 1 \<le> i" and "Suc i < length ?mpre" for i
      using that by simp
    show "Suc j < length ?mpre"
      using assms by (simp add: length_precision_envelope)
  qed
  then show ?thesis by (simp add: precision_envelope_def Let_def del: envelope_loop.simps)
qed

theorem precision_envelope_nonincreasing_witness:
  "Suc 1 < length (precision_envelope [1, 1 / 2, 2 / 3])
   \<and> precision_envelope [1, 1 / 2, 2 / 3] ! Suc 1 \<le> precision_envelope [1, 1 / 2, 2 / 3] ! 1
   \<and> precision_envelope [1, 1 / 2, 2 / 3] = [1, 1, 2 / 3, 2 / 3, 0]"
proof -
  have e: "precision_envelope [1, 1 / 2, 2 / 3] = [1, 1, 2 / 3, 2 / 3, 0]"
    by (simp add: precision_envelope_def numeral_nat)
  have h: "Suc 1 < length (precision_envelope [1, 1 / 2, 2 / 3])"
    by (simp add: e)
  show ?thesis
    using h precision_envelope_nonincreasing [OF h] e by simp
qed

text \<open>
  \<^verbatim>\<open>compute_ap\<close> returns when the precision curve is at least as long as the recall
  curve, as it is in \<^verbatim>\<open>ap_per_class\<close>.
\<close>

lemma compute_ap_returns:
  assumes "length recall \<le> length precision"
  shows "\<exists>a. compute_ap recall precision = Inr a"
proof -
  have "\<not> list_ex (\<lambda>k. length (precision_envelope precision) \<le> Suc k)
      (filter (\<lambda>k. ([0] @ recall @ [1]) ! Suc k \<noteq> ([0] @ recall @ [1]) ! k)
        [0 ..< length ([0] @ recall @ [1]) - 1])"
    using assms by (auto simp: list_ex_iff length_precision_envelope)
  then show ?thesis
    by (simp add: compute_ap_def Let_def)
qed

lemma length_cumsum_from: "length (cumsum_from acc xs) = length xs"
  by (induction xs arbitrary: acc) simp_all

lemma length_cumsum: "length (cumsum xs) = length xs"
  by (simp add: cumsum_def length_cumsum_from)

text \<open>
  One round of the class loop for a class that occurs in \<^verbatim>\<open>target_cls\<close>: it appends
  one entry to each list, and zeros when the class has no prediction.
\<close>

lemma ap_class_step_row:
  assumes "c \<in> set target_cls"
  shows "\<exists>a x y. ap_class_step tp pred_cls target_cls c (ap, p, r) = Inr (ap @ [a], p @ [x], r @ [y])
           \<and> (c \<notin> set pred_cls \<longrightarrow> a = 0 \<and> x = 0 \<and> y = 0)"
proof -
  let ?i = "map (\<lambda>pc. pc = c) pred_cls"
  have gt: "filter (\<lambda>tc. tc = c) target_cls \<noteq> []"
    using assms by (auto simp: filter_empty_conv)
  show ?thesis
  proof (cases "filter id ?i = []")
    case True
    then have "c \<notin> set pred_cls \<or> True" by simp
    from True gt show ?thesis
      by (simp add: ap_class_step_def Let_def)
  next
    case False
    then have "c \<in> set pred_cls"
      by (auto simp: filter_empty_conv)
    let ?tpc = "cumsum (boolean_mask ?i tp)"
    let ?fpc = "cumsum (map (\<lambda>t. 1 - t) (boolean_mask ?i tp))"
    let ?rc = "map (\<lambda>t. t / (real (length (filter (\<lambda>tc. tc = c) target_cls)) + eps)) ?tpc"
    let ?pc = "map2 (\<lambda>t f. t / (t + f)) ?tpc ?fpc"
    have "length ?rc \<le> length ?pc"
      by (simp add: length_cumsum)
    then obtain a where "compute_ap ?rc ?pc = Inr a"
      using compute_ap_returns by blast
    with False gt \<open>c \<in> set pred_cls\<close> show ?thesis
      by (simp add: ap_class_step_def Let_def)
  qed
qed

lemma ap_class_loop_rows:
  assumes "set cs \<subseteq> set target_cls"
    and "length p = length ap" and "length r = length ap"
  shows "\<exists>ap' p' r'. ap_class_loop tp pred_cls target_cls cs (ap, p, r) = Inr (ap', p', r')
     \<and> length ap' = length ap + length cs \<and> length p' = length ap' \<and> length r' = length ap'
     \<and> (\<forall>k<length cs. cs ! k \<notin> set pred_cls \<longrightarrow>
           ap' ! (length ap + k) = 0 \<and> p' ! (length ap + k) = 0 \<and> r' ! (length ap + k) = 0)
     \<and> take (length ap) ap' = ap \<and> take (length ap) p' = p \<and> take (length ap) r' = r"
  using assms
proof (induction cs arbitrary: ap p r)
  case Nil
  then show ?case by simp
next
  case (Cons c cs)
  from Cons.prems(1) have c: "c \<in> set target_cls" and cs: "set cs \<subseteq> set target_cls"
    by simp_all
  obtain a x y where
    step: "ap_class_step tp pred_cls target_cls c (ap, p, r) = Inr (ap @ [a], p @ [x], r @ [y])"
    and zero: "c \<notin> set pred_cls \<longrightarrow> a = 0 \<and> x = 0 \<and> y = 0"
    using ap_class_step_row [OF c] by blast
  have len: "length (p @ [x]) = length (ap @ [a])" "length (r @ [y]) = length (ap @ [a])"
    using Cons.prems by simp_all
  obtain ap' p' r' where
    loop: "ap_class_loop tp pred_cls target_cls cs (ap @ [a], p @ [x], r @ [y]) = Inr (ap', p', r')"
    and l: "length ap' = length (ap @ [a]) + length cs" "length p' = length ap'" "length r' = length ap'"
    and z: "\<forall>k<length cs. cs ! k \<notin> set pred_cls \<longrightarrow>
           ap' ! (length (ap @ [a]) + k) = 0 \<and> p' ! (length (ap @ [a]) + k) = 0
           \<and> r' ! (length (ap @ [a]) + k) = 0"
    and t: "take (length (ap @ [a])) ap' = ap @ [a]" "take (length (ap @ [a])) p' = p @ [x]"
      "take (length (ap @ [a])) r' = r @ [y]"
    using Cons.IH [OF cs len] by blast
  have t1: "take (Suc (length ap)) ap' = ap @ [a]" "take (Suc (length ap)) p' = p @ [x]"
      "take (Suc (length ap)) r' = r @ [y]"
    using t by simp_all
  have nth0: "ap' ! length ap = a" "p' ! length ap = x" "r' ! length ap = y"
  proof -
    have "ap' ! length ap = take (Suc (length ap)) ap' ! length ap" by simp
    then show "ap' ! length ap = a" by (simp add: t1)
    have "p' ! length ap = take (Suc (length ap)) p' ! length ap" by simp
    then show "p' ! length ap = x" using Cons.prems(2) by (simp add: t1 nth_append)
    have "r' ! length ap = take (Suc (length ap)) r' ! length ap" by simp
    then show "r' ! length ap = y" using Cons.prems(3) by (simp add: t1 nth_append)
  qed
  have pre: "take (length ap) ap' = ap" "take (length ap) p' = p" "take (length ap) r' = r"
  proof -
    have "take (length ap) ap' = take (length ap) (take (Suc (length ap)) ap')" by simp
    then show "take (length ap) ap' = ap" by (simp only: t1) simp
    have "take (length ap) p' = take (length ap) (take (Suc (length ap)) p')" by simp
    then show "take (length ap) p' = p" using Cons.prems(2) by (simp only: t1) simp
    have "take (length ap) r' = take (length ap) (take (Suc (length ap)) r')" by simp
    then show "take (length ap) r' = r" using Cons.prems(3) by (simp only: t1) simp
  qed
  have zeros: "ap' ! (length ap + k) = 0 \<and> p' ! (length ap + k) = 0 \<and> r' ! (length ap + k) = 0"
    if "k < length (c # cs)" and "(c # cs) ! k \<notin> set pred_cls" for k
  proof (cases k)
    case 0
    with that zero nth0 show ?thesis by simp
  next
    case (Suc k')
    with that z show ?thesis by simp
  qed
  from step loop l pre zeros show ?case
    by simp
qed

lemma set_np_unique: "set (np_unique xs) = set xs"
  by (simp add: np_unique_def)

lemma set_argsort: "set (argsort xs) \<subseteq> {0 ..< length xs}"
proof -
  have "set (argsort xs) = snd ` set (zip xs [0 ..< length xs])"
    by (simp add: argsort_def)
  also have "\<dots> \<subseteq> set [0 ..< length xs]"
    by (auto dest: set_zip_rightD)
  finally show ?thesis by simp
qed

text \<open>
  Claim C4, amended: \<^verbatim>\<open>ap_per_class\<close> (on arrays \<^verbatim>\<open>tp\<close>, \<^verbatim>\<open>conf\<close>, \<^verbatim>\<open>pred_cls\<close> of one
  length) returns, and its arrays have exactly one entry per distinct ground-truth
  class, in ascending order of the class (the list \<open>np_unique target_cls\<close>, which is
  sorted and holds each class of \<^verbatim>\<open>target_cls\<close> once). A class that has ground truth and no
  prediction has AP, precision and recall 0 there. A class with no ground truth has no
  entry, whether it has predictions or not.
\<close>

theorem ap_per_class_rows:
  assumes "length tp = length conf" and "length pred_cls = length conf"
  shows "\<exists>res. ap_per_class tp conf pred_cls target_cls = Inr res
     \<and> length (res_ap res) = length (np_unique target_cls)
     \<and> length (res_p res) = length (np_unique target_cls)
     \<and> length (res_r res) = length (np_unique target_cls)
     \<and> res_classes res = map astype_int32 (np_unique target_cls)
     \<and> set (np_unique target_cls) = set target_cls \<and> distinct (np_unique target_cls)
     \<and> sorted (np_unique target_cls)
     \<and> (\<forall>k<length (np_unique target_cls). np_unique target_cls ! k \<notin> set pred_cls \<longrightarrow>
           res_ap res ! k = 0 \<and> res_p res ! k = 0 \<and> res_r res ! k = 0)"
proof -
  let ?i = "argsort (map uminus conf)"
  let ?tp = "map (\<lambda>k. tp ! k) ?i"
  let ?pc = "map (\<lambda>k. pred_cls ! k) ?i"
  let ?u = "np_unique target_cls"
  have sub: "set ?pc \<subseteq> set pred_cls"
    using set_argsort [of "map uminus conf"] assms(2) by auto
  obtain ap' p' r' where
    loop: "ap_class_loop ?tp ?pc target_cls ?u ([], [], []) = Inr (ap', p', r')"
    and l: "length ap' = length ?u" "length p' = length ap'" "length r' = length ap'"
    and z: "\<forall>k<length ?u. ?u ! k \<notin> set ?pc \<longrightarrow> ap' ! k = 0 \<and> p' ! k = 0 \<and> r' ! k = 0"
    using ap_class_loop_rows [of ?u target_cls "[]" "[]" "[]" ?tp ?pc]
    by (auto simp: set_np_unique)
  have z': "\<forall>k<length ?u. ?u ! k \<notin> set pred_cls \<longrightarrow> ap' ! k = 0 \<and> p' ! k = 0 \<and> r' ! k = 0"
    using z sub by blast
  have "distinct ?u" and "sorted ?u"
    by (simp_all add: np_unique_def)
  with loop l z' assms show ?thesis
    by (simp add: ap_per_class_def Let_def set_np_unique)
qed

text \<open>
  Claim C4, as stated, also gives a class with predictions and no ground truth an entry
  with zeros. The loop runs over \<^verbatim>\<open>np.unique(target_cls)\<close> only, so such a class is
  never visited: below, class 5 has a prediction and no ground truth, and the result
  holds class 3 alone.
\<close>

theorem ap_per_class_no_ground_truth_counterexample:
  "(5::real) \<in> set [5] \<and> (5::real) \<notin> set [3]
   \<and> ap_per_class [1] [9 / 10] [5] [3]
       = Inr \<lparr>res_p = [0], res_r = [0], res_ap = [0], res_f1 = [0], res_classes = [3]\<rparr>"
  by (simp add: ap_per_class_def argsort_def np_unique_def ap_class_step_def astype_int32_def
      long_def Let_def)

theorem ap_per_class_rows_witness:
  "\<exists>res. ap_per_class [1, 0] [9 / 10, 8 / 10] [5, 5] [3, 5, 3] = Inr res
     \<and> np_unique [3, 5, 3] = [3, 5] \<and> res_ap res ! 0 = 0 \<and> res_p res ! 0 = 0 \<and> res_r res ! 0 = 0"
proof -
  have u: "np_unique [3, 5, 3] = [3, 5]"
    by (simp add: np_unique_def)
  from ap_per_class_rows [of "[1, 0]" "[9 / 10, 8 / 10]" "[5, 5]" "[3, 5, 3]"]
  obtain res where "ap_per_class [1, 0] [9 / 10, 8 / 10] [5, 5] [3, 5, 3] = Inr res"
    and "\<forall>k<length (np_unique [3, 5, 3]). np_unique [3, 5, 3] ! k \<notin> set [5, 5] \<longrightarrow>
           res_ap res ! k = 0 \<and> res_p res ! k = 0 \<and> res_r res ! k = 0"
    by auto
  then show ?thesis
    using u by (intro exI [of _ res]) simp
qed

section \<open>The maximum of a list and its index\<close>

lemma max_index_aux_bounds:
  assumes "max_index_aux best bi k xs = (v, i)"
  shows "best \<le> v \<and> (\<forall>x\<in>set xs. x \<le> v)
       \<and> ((i = bi \<and> v = best) \<or> (k \<le> i \<and> i < k + length xs \<and> xs ! (i - k) = v))"
  using assms
proof (induction xs arbitrary: best bi k)
  case Nil
  then show ?case by simp
next
  case (Cons x xs)
  show ?case
  proof (cases "best < x")
    case True
    with Cons.prems have "max_index_aux x k (Suc k) xs = (v, i)"
      by simp
    from Cons.IH [OF this] True show ?thesis
      by (auto simp: nth_Cons' Suc_diff_le)
  next
    case False
    with Cons.prems have "max_index_aux best bi (Suc k) xs = (v, i)"
      by simp
    from Cons.IH [OF this] False show ?thesis
      by (auto simp: nth_Cons' Suc_diff_le)
  qed
qed

lemma torch_max_Some:
  assumes "torch_max xs = Some (v, i)"
  shows "i < length xs \<and> xs ! i = v \<and> (\<forall>x\<in>set xs. x \<le> v)"
proof (cases xs)
  case Nil
  with assms show ?thesis by simp
next
  case (Cons x rest)
  with assms have "max_index_aux x 0 1 rest = (v, i)"
    by simp
  from max_index_aux_bounds [OF this] Cons show ?thesis
    by (auto simp: nth_Cons')
qed

section \<open>Non-maximum suppression: the claims on the merge loop\<close>

subsection \<open>One round of the loop\<close>

lemma boolean_mask_map: "boolean_mask (map P xs) xs = filter P xs"
  by (induction xs) (simp_all add: boolean_mask_def)

lemma boolean_mask_Cons:
  "boolean_mask (m # ms) (x # xs) = (if m then [x] else []) @ boolean_mask ms xs"
  by (simp add: boolean_mask_def)

lemma boolean_mask_map_not: "boolean_mask (map Not (map P xs)) xs = filter (\<lambda>x. \<not> P x) xs"
  by (induction xs) (simp_all add: boolean_mask_def)

lemma nms_invalid_mask:
  "map2 (\<and>) (map (\<lambda>d. iou_exceeds nms_thres (coords c) (coords d)) ds)
              (map (\<lambda>d. class_pred c = class_pred d) ds)
   = map (in_cluster nms_thres c) ds"
  by (induction ds) (auto simp: in_cluster_def)

lemma iou_exceeds_Some:
  assumes "iou_exceeds nms_thres a b"
  shows "a \<noteq> None \<and> b \<noteq> None"
  using assms by (cases a; cases b) simp_all

lemma in_cluster_numbers:
  assumes "in_cluster nms_thres c d"
  shows "coords c \<noteq> None \<and> coords d \<noteq> None"
  using assms iou_exceeds_Some by (auto simp: in_cluster_def simp del: not_None_eq)

lemma weighted_boxes_Cons:
  "coords d = Some b \<Longrightarrow> weighted_boxes (d # S) = (object_conf d, b) # weighted_boxes S"
  by (simp add: weighted_boxes_def List.map_filter_simps)

lemma cluster_sums:
  assumes "\<forall>d\<in>set S. coords d \<noteq> None"
  shows "sum_list (map2 (\<lambda>w b. w * column k b) (map object_conf S) (List.map_filter coords S))
           = (\<Sum>wb\<leftarrow>weighted_boxes S. fst wb * column k (snd wb))
       \<and> sum_list (map object_conf S) = (\<Sum>wb\<leftarrow>weighted_boxes S. fst wb)"
  using assms
proof (induction S)
  case Nil
  then show ?case by (simp add: weighted_boxes_def List.map_filter_simps)
next
  case (Cons d S)
  then obtain b where b: "coords d = Some b" by auto
  with Cons show ?case
    by (simp add: weighted_boxes_Cons List.map_filter_simps)
qed

lemma nms_iteration_cluster:
  "nms_iteration nms_thres c ds =
     (merged c (filter (in_cluster nms_thres c) (c # ds)),
      (if in_cluster nms_thres c c then [] else [merged c (filter (in_cluster nms_thres c) (c # ds))])
      @ filter (\<lambda>d. \<not> in_cluster nms_thres c d) ds)"
proof -
  let ?inv = "map (in_cluster nms_thres c) (c # ds)"
  let ?S = "filter (in_cluster nms_thres c) (c # ds)"
  have sel: "boolean_mask ?inv (c # ds) = ?S"
    by (rule boolean_mask_map)
  have rest: "boolean_mask (map Not ?inv) (c' # ds)
      = (if in_cluster nms_thres c c then [] else [c']) @ filter (\<lambda>d. \<not> in_cluster nms_thres c d) ds" for c'
    using boolean_mask_map_not [of "in_cluster nms_thres c" ds]
    by (simp add: boolean_mask_Cons)
  have "\<forall>d\<in>set ?S. coords d \<noteq> None"
    using in_cluster_numbers by auto
  note sums = cluster_sums [OF this]
  show ?thesis
    unfolding nms_iteration_def Let_def nms_invalid_mask sel rest
    by (simp only: sums merged_def weighted_average_def)
qed

lemma nms_loop_Nil: "nms_loop nms_thres [] keep = Some keep"
  by (simp add: nms_loop.simps)

lemma nms_loop_Cons:
  "nms_loop nms_thres (c # ds) keep =
     nms_loop nms_thres (snd (nms_iteration nms_thres c ds)) (keep @ [fst (nms_iteration nms_thres c ds)])"
  by (subst nms_loop.simps) simp





lemma nms_detections_by_score:
  assumes "nms_detections conf_thres image_pred = Inr dets"
  shows "by_score dets"
proof (cases "filter (\<lambda>p. conf_thres \<le> obj_conf p) image_pred = []")
  case True
  with assms show ?thesis
    by (simp add: nms_detections_def)
next
  case False
  let ?f = "filter (\<lambda>p. conf_thres \<le> obj_conf p) image_pred"
  from assms False obtain maxima where
    m: "those (map (\<lambda>p. torch_max (cls_scores p)) ?f) = Some maxima"
    by (auto simp: nms_detections_def Let_def split: option.splits)
  let ?k = "\<lambda>pm. - (obj_conf (fst pm) * fst (snd pm))"
  let ?s = "sort_key ?k (zip ?f maxima)"
  let ?row = "\<lambda>pm. \<lparr>coords = Some (xywh (fst pm)), object_conf = obj_conf (fst pm),
                     class_score = fst (snd pm), class_pred = real (snd (snd pm))\<rparr>"
  have d: "dets = map ?row ?s"
    using assms False m by (simp add: nms_detections_def Let_def)
  have "sorted (map ?k ?s)"
    by (rule sorted_sort_key)
  then have "sorted_wrt (\<lambda>a b. ?k a \<le> ?k b) ?s"
    by (simp add: sorted_wrt_map)
  then have "sorted_wrt (\<lambda>a b. score (?row b) \<le> score (?row a)) ?s"
    by (simp add: score_def)
  then show ?thesis
    by (simp add: d sorted_wrt_map)
qed





subsection \<open>Termination\<close>












text \<open>
  A row of NaN at the head of the candidates is in no cluster, not even its own: the
  round stores NaN in it again and removes nothing, and the loop never ends. A
  candidate with no row in its cluster, itself included, becomes such a row.
\<close>

lemma nms_iteration_nan:
  assumes "coords c = None"
  shows "nms_iteration nms_thres c ds = (c, c # ds)"
proof -
  have "\<not> in_cluster nms_thres c d" for d
    using assms by (simp add: in_cluster_def)
  then have "nms_iteration nms_thres c ds = (merged c [], [merged c []] @ ds)"
    by (simp add: nms_iteration_cluster)
  moreover have "merged c [] = c"
    using assms by (simp add: merged_def weighted_boxes_def List.map_filter_simps)
  ultimately show ?thesis by simp
qed

lemma nms_loop_nan_head:
  assumes "nms_loop nms_thres dets keep = Some out"
  shows "dets = [] \<or> coords (hd dets) \<noteq> None"
  using assms
proof (induction rule: nms_loop.raw_induct [rotated 1, consumes 1])
  case (1 loop nms_thres dets keep out)
  show ?case
  proof (cases dets)
    case Nil
    then show ?thesis by simp
  next
    case (Cons c ds)
    show ?thesis
    proof (cases "coords c")
      case None
      with "1.hyps" Cons have "loop nms_thres (c # ds) (keep @ [c]) = Some out"
        by (simp add: nms_iteration_nan)
      from "1.IH" [OF this] None show ?thesis by simp
    next
      case (Some b)
      with Cons show ?thesis by simp
    qed
  qed
qed

lemma nms_loop_stuck:
  assumes "\<forall>d\<in>set (c # ds). \<not> in_cluster nms_thres c d"
  shows "nms_loop nms_thres (c # ds) keep = None"
proof -
  let ?nan = "c\<lparr>coords := None\<rparr>"
  have "filter (in_cluster nms_thres c) (c # ds) = []"
    using assms by (simp add: filter_empty_conv)
  moreover have "filter (\<lambda>d. \<not> in_cluster nms_thres c d) ds = ds"
    using assms by (simp add: filter_id_conv)
  ultimately have "nms_iteration nms_thres c ds = (?nan, ?nan # ds)"
    using assms by (simp add: nms_iteration_cluster merged_def weighted_boxes_def List.map_filter_simps)
  then have "nms_loop nms_thres (c # ds) keep = nms_loop nms_thres (?nan # ds) (keep @ [?nan])"
    by (simp add: nms_loop_Cons)
  moreover have "nms_loop nms_thres (?nan # ds) (keep @ [?nan]) = None"
    using nms_loop_nan_head [of nms_thres "?nan # ds" "keep @ [?nan]"]
    by (cases "nms_loop nms_thres (?nan # ds) (keep @ [?nan])") auto
  ultimately show ?thesis by simp
qed

text \<open>
  So it is for a box of negative width: its intersection with itself is clamped to 0,
  its IoU with itself is 0, and with it alone the loop never ends.
\<close>

lemma nms_negative_width_diverges:
  "non_max_suppression [[\<lparr>xywh = (10, 10, - 3, 4), obj_conf = 1, cls_scores = [4 / 5]\<rparr>]]
        (1 / 2) (4 / 10) = None"
proof -
  let ?d = "\<lparr>coords = Some (23 / 2, 8, 17 / 2, 12), object_conf = 1, class_score = 4 / 5, class_pred = 0\<rparr>"
  have d: "nms_detections (1 / 2) [\<lparr>xywh = (23 / 2, 8, 17 / 2, 12), obj_conf = 1, cls_scores = [4 / 5]\<rparr>]
     = Inr [?d]"
    by (simp add: nms_detections_def)
  have "\<not> in_cluster (4 / 10) ?d ?d"
    by (simp add: in_cluster_def clamp_min_def eps_def Let_def)
  then have "nms_loop (4 / 10) [?d] [] = None"
    by (intro nms_loop_stuck) simp
  with d show ?thesis
    by (simp add: non_max_suppression_def nms_image_def)
qed



subsection \<open>Running the loop again\<close>

lemma merged_single:
  assumes "coords d = Some (x1, y1, x2, y2)"
  shows "merged d [d] =
     d\<lparr>coords := (if object_conf d = 0 then None
                  else Some (object_conf d * x1 / object_conf d, object_conf d * y1 / object_conf d,
                             object_conf d * x2 / object_conf d, object_conf d * y2 / object_conf d))\<rparr>"
  using assms by (simp add: merged_def weighted_average_def weighted_boxes_Cons weighted_boxes_def
      List.map_filter_simps)

lemma nms_loop_no_merge:
  assumes "\<forall>d\<in>set dets. in_cluster nms_thres d d"
    and "sorted_wrt (\<lambda>c d. \<not> in_cluster nms_thres c d) dets"
  shows "nms_loop nms_thres dets keep = Some (keep @ map (\<lambda>d. merged d [d]) dets)"
  using assms
proof (induction dets arbitrary: keep)
  case Nil
  then show ?case by (simp add: nms_loop_Nil)
next
  case (Cons c ds)
  from Cons.prems have self: "in_cluster nms_thres c c"
    and others: "\<forall>d\<in>set ds. \<not> in_cluster nms_thres c d"
    by simp_all
  have S: "filter (in_cluster nms_thres c) ds = []"
    using others by (simp add: filter_empty_conv)
  have R: "filter (\<lambda>d. \<not> in_cluster nms_thres c d) ds = ds"
    using others by (simp add: filter_id_conv)
  have it: "nms_iteration nms_thres c ds = (merged c [c], ds)"
    using self by (simp add: nms_iteration_cluster S R)
  have "nms_loop nms_thres ds (keep @ [merged c [c]])
      = Some ((keep @ [merged c [c]]) @ map (\<lambda>d. merged d [d]) ds)"
    using Cons.prems by (intro Cons.IH) simp_all
  then show ?case
    by (simp add: nms_loop_Cons it)
qed

text \<open>
  Claim C9, amended: on candidates that are each in their own cluster and of which none
  is in the cluster of an earlier one, as when no further merge is possible, the loop
  returns one row for each candidate, in the same order. The row has the objectness,
  the class score and the class of its candidate, and for each coordinate \<open>x\<close> of the
  candidate the quotient \<open>(w * x) / w\<close>, where \<open>w\<close> is its objectness (NaN when \<open>w = 0\<close>).
\<close>

theorem nms_loop_fixed:
  assumes "\<forall>d\<in>set dets. in_cluster nms_thres d d"
    and "sorted_wrt (\<lambda>c d. \<not> in_cluster nms_thres c d) dets"
  shows "nms_loop nms_thres dets [] = Some (map (\<lambda>d. merged d [d]) dets)
    \<and> (\<forall>d\<in>set dets. \<exists>x1 y1 x2 y2. coords d = Some (x1, y1, x2, y2)
          \<and> merged d [d] =
             d\<lparr>coords := (if object_conf d = 0 then None
                  else Some (object_conf d * x1 / object_conf d, object_conf d * y1 / object_conf d,
                             object_conf d * x2 / object_conf d, object_conf d * y2 / object_conf d))\<rparr>)"
proof -
  have "nms_loop nms_thres dets [] = Some (map (\<lambda>d. merged d [d]) dets)"
    using nms_loop_no_merge [OF assms, of "[]"] by simp
  moreover have "\<exists>x1 y1 x2 y2. coords d = Some (x1, y1, x2, y2)
          \<and> merged d [d] =
             d\<lparr>coords := (if object_conf d = 0 then None
                  else Some (object_conf d * x1 / object_conf d, object_conf d * y1 / object_conf d,
                             object_conf d * x2 / object_conf d, object_conf d * y2 / object_conf d))\<rparr>"
    if "d \<in> set dets" for d
  proof -
    from that assms(1) have "in_cluster nms_thres d d" by blast
    then obtain b where "coords d = Some b"
      using in_cluster_numbers by blast
    then obtain x1 y1 x2 y2 where c: "coords d = Some (x1, y1, x2, y2)"
      by (cases b) simp
    from merged_single [OF c] c show ?thesis by blast
  qed
  ultimately show ?thesis by blast
qed

theorem nms_loop_fixed_witness:
  "nms_loop (4 / 10)
     [\<lparr>coords = Some (0, 0, 10, 10), object_conf = 1, class_score = 1, class_pred = 0\<rparr>,
      \<lparr>coords = Some (100, 100, 110, 110), object_conf = 1 / 2, class_score = 1, class_pred = 0\<rparr>] []
   = Some
     [\<lparr>coords = Some (0, 0, 10, 10), object_conf = 1, class_score = 1, class_pred = 0\<rparr>,
      \<lparr>coords = Some (100, 100, 110, 110), object_conf = 1 / 2, class_score = 1, class_pred = 0\<rparr>]"
proof -
  let ?A = "\<lparr>coords = Some (0, 0, 10, 10), object_conf = 1, class_score = 1, class_pred = 0\<rparr>"
  let ?C = "\<lparr>coords = Some (100, 100, 110, 110), object_conf = 1 / 2, class_score = 1, class_pred = 0\<rparr>"
  have c: "\<forall>d\<in>set [?A, ?C]. in_cluster (4 / 10) d d"
    "sorted_wrt (\<lambda>c d. \<not> in_cluster (4 / 10) c d) [?A, ?C]"
    by (simp_all add: in_cluster_def clamp_min_def eps_def Let_def)
  have m: "merged ?A [?A] = ?A" "merged ?C [?C] = ?C"
    by (simp_all add: merged_def weighted_average_def weighted_boxes_def List.map_filter_simps)
  from nms_loop_fixed [OF c] m show ?thesis
    by simp
qed

lemma nms_three_candidates:
  "nms_detections (1 / 2)
     [\<lparr>xywh = (0, 0, 10, 0), obj_conf = 1, cls_scores = [1]\<rparr>,
      \<lparr>xywh = (4, 0, 14, 0), obj_conf = 1, cls_scores = [9 / 10]\<rparr>,
      \<lparr>xywh = (6, 0, 16, 0), obj_conf = 1, cls_scores = [4 / 5]\<rparr>]
   = Inr
     [\<lparr>coords = Some (0, 0, 10, 0), object_conf = 1, class_score = 1, class_pred = 0\<rparr>,
      \<lparr>coords = Some (4, 0, 14, 0), object_conf = 1, class_score = 9 / 10, class_pred = 0\<rparr>,
      \<lparr>coords = Some (6, 0, 16, 0), object_conf = 1, class_score = 4 / 5, class_pred = 0\<rparr>]"
  by (simp add: nms_detections_def)

lemma nms_two_reread:
  "nms_detections (1 / 2)
     [\<lparr>xywh = (- 4, 0, 8, 0), obj_conf = 1, cls_scores = [1, 0]\<rparr>,
      \<lparr>xywh = (- 2, 0, 14, 0), obj_conf = 1, cls_scores = [4 / 5, 0]\<rparr>]
   = Inr
     [\<lparr>coords = Some (- 4, 0, 8, 0), object_conf = 1, class_score = 1, class_pred = 0\<rparr>,
      \<lparr>coords = Some (- 2, 0, 14, 0), object_conf = 1, class_score = 4 / 5, class_pred = 0\<rparr>]"
  by (simp add: nms_detections_def)

text \<open>
  Claim C9, as stated, has no merge possible on an output. Of three candidates on a
  line the first round merges the first two, into a box that overlaps the third more
  than the first candidate did: the output has two rows, and the loop run on these two
  rows merges them into one. Read as predictions, the seven columns of an output row are
  a center, a size, an objectness and two class scores, and \<^verbatim>\<open>non_max_suppression\<close>
  on them returns one row of other coordinates.
\<close>

theorem non_max_suppression_rerun_counterexample:
  "non_max_suppression
     [[\<lparr>xywh = (5, 0, 10, 0), obj_conf = 1, cls_scores = [1]\<rparr>,
       \<lparr>xywh = (9, 0, 10, 0), obj_conf = 1, cls_scores = [9 / 10]\<rparr>,
       \<lparr>xywh = (11, 0, 10, 0), obj_conf = 1, cls_scores = [4 / 5]\<rparr>]] (1 / 2) (4 / 10)
     = Some (Inr [Some
        [\<lparr>coords = Some (2, 0, 12, 0), object_conf = 1, class_score = 1, class_pred = 0\<rparr>,
         \<lparr>coords = Some (6, 0, 16, 0), object_conf = 1, class_score = 4 / 5, class_pred = 0\<rparr>]])
   \<and> nms_loop (4 / 10)
        [\<lparr>coords = Some (2, 0, 12, 0), object_conf = 1, class_score = 1, class_pred = 0\<rparr>,
         \<lparr>coords = Some (6, 0, 16, 0), object_conf = 1, class_score = 4 / 5, class_pred = 0\<rparr>] []
     = Some [\<lparr>coords = Some (4, 0, 14, 0), object_conf = 1, class_score = 1, class_pred = 0\<rparr>]
   \<and> map as_prediction
        [\<lparr>coords = Some (2, 0, 12, 0), object_conf = 1, class_score = 1, class_pred = 0\<rparr>,
         \<lparr>coords = Some (6, 0, 16, 0), object_conf = 1, class_score = 4 / 5, class_pred = 0\<rparr>]
     = [Some \<lparr>xywh = (2, 0, 12, 0), obj_conf = 1, cls_scores = [1, 0]\<rparr>,
        Some \<lparr>xywh = (6, 0, 16, 0), obj_conf = 1, cls_scores = [4 / 5, 0]\<rparr>]
   \<and> non_max_suppression
        [[\<lparr>xywh = (2, 0, 12, 0), obj_conf = 1, cls_scores = [1, 0]\<rparr>,
          \<lparr>xywh = (6, 0, 16, 0), obj_conf = 1, cls_scores = [4 / 5, 0]\<rparr>]] (1 / 2) (4 / 10)
     = Some (Inr [Some
        [\<lparr>coords = Some (- 3, 0, 11, 0), object_conf = 1, class_score = 1, class_pred = 0\<rparr>]])"
proof -
  let ?A = "\<lparr>coords = Some (0, 0, 10, 0), object_conf = 1, class_score = 1, class_pred = 0\<rparr>"
  let ?B = "\<lparr>coords = Some (4, 0, 14, 0), object_conf = 1, class_score = 9 / 10, class_pred = 0\<rparr>"
  let ?C = "\<lparr>coords = Some (6, 0, 16, 0), object_conf = 1, class_score = 4 / 5, class_pred = 0\<rparr>"
  let ?M = "\<lparr>coords = Some (2, 0, 12, 0), object_conf = 1, class_score = 1, class_pred = 0\<rparr>"
  let ?Z = "\<lparr>coords = Some (4, 0, 14, 0), object_conf = 1, class_score = 1, class_pred = 0\<rparr>"
  let ?P = "\<lparr>coords = Some (- 4, 0, 8, 0), object_conf = 1, class_score = 1, class_pred = 0\<rparr>"
  let ?Q = "\<lparr>coords = Some (- 2, 0, 14, 0), object_conf = 1, class_score = 4 / 5, class_pred = 0\<rparr>"
  let ?W = "\<lparr>coords = Some (- 3, 0, 11, 0), object_conf = 1, class_score = 1, class_pred = 0\<rparr>"
  have c: "in_cluster (4 / 10) ?A ?A" "in_cluster (4 / 10) ?A ?B" "\<not> in_cluster (4 / 10) ?A ?C"
    "in_cluster (4 / 10) ?C ?C" "in_cluster (4 / 10) ?M ?M" "in_cluster (4 / 10) ?M ?C"
    "in_cluster (4 / 10) ?P ?P" "in_cluster (4 / 10) ?P ?Q"
    by (simp_all add: in_cluster_def clamp_min_def eps_def Let_def)
  have 1: "nms_iteration (4 / 10) ?A [?B, ?C] = (?M, [?C])"
    using c by (simp add: nms_iteration_cluster merged_def weighted_average_def weighted_boxes_def
        List.map_filter_simps)
  have 2: "nms_iteration (4 / 10) ?C [] = (?C, [])"
    using c by (simp add: nms_iteration_cluster merged_def weighted_average_def weighted_boxes_def
        List.map_filter_simps)
  have 3: "nms_iteration (4 / 10) ?M [?C] = (?Z, [])"
    using c by (simp add: nms_iteration_cluster merged_def weighted_average_def weighted_boxes_def
        List.map_filter_simps)
  have 4: "nms_iteration (4 / 10) ?P [?Q] = (?W, [])"
    using c by (simp add: nms_iteration_cluster merged_def weighted_average_def weighted_boxes_def
        List.map_filter_simps)
  from 1 2 have first: "nms_loop (4 / 10) [?A, ?B, ?C] [] = Some [?M, ?C]"
    by (simp add: nms_loop_Cons nms_loop_Nil)
  from 3 have second: "nms_loop (4 / 10) [?M, ?C] [] = Some [?Z]"
    by (simp add: nms_loop_Cons nms_loop_Nil)
  from 4 have third: "nms_loop (4 / 10) [?P, ?Q] [] = Some [?W]"
    by (simp add: nms_loop_Cons nms_loop_Nil)
  have a: "non_max_suppression
     [[\<lparr>xywh = (5, 0, 10, 0), obj_conf = 1, cls_scores = [1]\<rparr>,
       \<lparr>xywh = (9, 0, 10, 0), obj_conf = 1, cls_scores = [9 / 10]\<rparr>,
       \<lparr>xywh = (11, 0, 10, 0), obj_conf = 1, cls_scores = [4 / 5]\<rparr>]] (1 / 2) (4 / 10)
     = Some (Inr [Some [?M, ?C]])"
    using first nms_three_candidates by (simp add: non_max_suppression_def nms_image_def)
  have b: "non_max_suppression
        [[\<lparr>xywh = (2, 0, 12, 0), obj_conf = 1, cls_scores = [1, 0]\<rparr>,
          \<lparr>xywh = (6, 0, 16, 0), obj_conf = 1, cls_scores = [4 / 5, 0]\<rparr>]] (1 / 2) (4 / 10)
     = Some (Inr [Some [?W]])"
    using third nms_two_reread by (simp add: non_max_suppression_def nms_image_def)
  have r: "map as_prediction [?M, ?C]
     = [Some \<lparr>xywh = (2, 0, 12, 0), obj_conf = 1, cls_scores = [1, 0]\<rparr>,
        Some \<lparr>xywh = (6, 0, 16, 0), obj_conf = 1, cls_scores = [4 / 5, 0]\<rparr>]"
    by (simp add: as_prediction_def)
  from a second r b show ?thesis
    by (intro conjI)
qed

section \<open>Matching: the claim on \<^verbatim>\<open>get_batch_statistics\<close>\<close>

lemma matchableI:
  assumes "class_pred d \<in> set (map target_label annotations)" and "coords d = Some b"
    and "torch_max (map (\<lambda>t. bbox_iou b (target_box t) True) annotations) = Some (iou, k)"
    and "iou_threshold \<le> iou"
  shows "matchable iou_threshold annotations d"
proof -
  from torch_max_Some [OF assms(3)] have k: "k < length annotations"
    and v: "bbox_iou b (target_box (annotations ! k)) True = iou"
    and mx: "\<forall>t'\<in>set annotations. bbox_iou b (target_box t') True \<le> iou"
    by auto
  have "annotations ! k \<in> set annotations"
    using k by simp
  moreover have "iou_threshold \<le> bbox_iou b (target_box (annotations ! k)) True"
    using v assms(4) by simp
  moreover have "list_all (\<lambda>t'. bbox_iou b (target_box t') True
      \<le> bbox_iou b (target_box (annotations ! k)) True) annotations"
    using mx v by (simp add: list_all_iff)
  ultimately have "list_ex (\<lambda>t. iou_threshold \<le> bbox_iou b (target_box t) True
                 \<and> list_all (\<lambda>t'. bbox_iou b (target_box t') True \<le> bbox_iou b (target_box t) True)
                       annotations) annotations"
    unfolding list_ex_iff by blast
  with assms(1,2) show ?thesis
    by (simp add: matchable_def)
qed

text \<open>
  The loop over the detections of one image returns; a flag it changes becomes 1, and
  it changes only the flag of a detection that can be matched.
\<close>

lemma match_loop_flags:
  assumes "annotations \<noteq> []"
  shows "\<exists>tps'. match_loop iou_threshold annotations rows detected tps = Inr tps'
     \<and> length tps' = length tps
     \<and> (\<forall>i<length tps. tps' ! i = tps ! i \<or>
          (tps' ! i = 1 \<and> (\<exists>d. (i, d) \<in> set rows \<and> matchable iou_threshold annotations d)))"
proof (induction rows arbitrary: detected tps)
  case Nil
  then show ?case by simp
next
  case (Cons row rows)
  obtain pred_i d where row: "row = (pred_i, d)"
    by (cases row)
  let ?P = "\<lambda>rows tps tps'. length tps' = length tps
     \<and> (\<forall>i<length tps. tps' ! i = tps ! i \<or>
          (tps' ! i = 1 \<and> (\<exists>d. (i, d) \<in> set rows \<and> matchable iou_threshold annotations d)))"
  have skip: "\<exists>tps'. match_loop iou_threshold annotations rows detected tps = Inr tps'
      \<and> ?P (row # rows) tps tps'"
  proof -
    from Cons.IH [of detected tps] obtain tps' where
      "match_loop iou_threshold annotations rows detected tps = Inr tps'" and "?P rows tps tps'"
      by blast
    then show ?thesis
      by (intro exI [of _ tps']) auto
  qed
  show ?case
  proof (cases "length detected = length annotations")
    case True
    then show ?thesis by (simp add: row)
  next
    case full: False
    show ?thesis
    proof (cases "class_pred d \<in> set (map target_label annotations)")
      case False
      with full skip show ?thesis by (simp add: row)
    next
      case label: True
      show ?thesis
      proof (cases "coords d")
        case None
        with full label skip show ?thesis by (simp add: row)
      next
        case (Some b)
        let ?ious = "map (\<lambda>t. bbox_iou b (target_box t) True) annotations"
        from assms have "?ious \<noteq> []"
          by simp
        then obtain x xs where "?ious = x # xs"
          by (cases ?ious) auto
        then have "torch_max ?ious = Some (max_index_aux x 0 1 xs)"
          by simp
        then obtain iou k where m: "torch_max ?ious = Some (iou, k)"
          by (cases "max_index_aux x 0 1 xs") auto
        show ?thesis
        proof (cases "iou_threshold \<le> iou \<and> k \<notin> set detected")
          case False
          with full label Some m have
            "match_loop iou_threshold annotations (row # rows) detected tps
               = match_loop iou_threshold annotations rows detected tps"
            by (auto simp: row)
          with skip show ?thesis by simp
        next
          case hit: True
          from hit have "iou_threshold \<le> iou"
            by simp
          from matchableI [OF label Some m this]
          have md: "matchable iou_threshold annotations d" .
          from Cons.IH [of "detected @ [k]" "tps[pred_i := 1]"] obtain tps' where
            r: "match_loop iou_threshold annotations rows (detected @ [k]) (tps[pred_i := 1]) = Inr tps'"
            and p: "?P rows (tps[pred_i := 1]) tps'"
            by blast
          have "tps' ! i = tps ! i \<or>
              (tps' ! i = 1 \<and> (\<exists>d. (i, d) \<in> set (row # rows) \<and> matchable iou_threshold annotations d))"
            if i: "i < length tps" for i
          proof (cases "i = pred_i")
            case True
            from p i have "tps' ! i = tps[pred_i := 1] ! i \<or> tps' ! i = 1"
              by auto
            with True i have "tps' ! i = 1" by auto
            with True md row show ?thesis by auto
          next
            case False
            with p i show ?thesis by auto
          qed
          then have "?P (row # rows) tps tps'"
            using p by simp
          with full label Some m hit r show ?thesis
            by (simp add: row)
        qed
      qed
    qed
  qed
qed

lemma image_flags:
  assumes true_positives_def: "true_positives = replicate (length output) 0"
  shows "\<exists>tps'. (if annotations \<noteq> []
              then match_loop iou_threshold annotations (enumerate 0 output) [] true_positives
              else Inr true_positives) = Inr tps'
     \<and> length tps' = length output
     \<and> (\<forall>i<length output. tps' ! i = 0 \<or>
          (tps' ! i = 1 \<and> matchable iou_threshold annotations (output ! i)))"
proof (cases "annotations = []")
  case True
  then show ?thesis
    by (simp add: true_positives_def)
next
  case False
  from match_loop_flags [OF False, of iou_threshold "enumerate 0 output" "[]" true_positives]
  obtain tps' where r: "match_loop iou_threshold annotations (enumerate 0 output) [] true_positives = Inr tps'"
    and l: "length tps' = length true_positives"
    and f: "\<forall>i<length true_positives. tps' ! i = true_positives ! i \<or>
          (tps' ! i = 1 \<and> (\<exists>d. (i, d) \<in> set (enumerate 0 output) \<and> matchable iou_threshold annotations d))"
    by blast
  have "tps' ! i = 0 \<or> (tps' ! i = 1 \<and> matchable iou_threshold annotations (output ! i))"
    if i: "i < length output" for i
  proof -
    from f i have "tps' ! i = 0 \<or>
          (tps' ! i = 1 \<and> (\<exists>d. (i, d) \<in> set (enumerate 0 output) \<and> matchable iou_threshold annotations d))"
      by (simp add: true_positives_def)
    then show ?thesis
      by (auto simp: in_set_enumerate_eq)
  qed
  with False r l show ?thesis
    by (simp add: true_positives_def)
qed

lemma batch_loop_flags:
  "\<exists>batch_metrics. batch_loop targets iou_threshold sample_i outputs = Inr batch_metrics
     \<and> list_all2 (\<lambda>(true_positives, pred_scores, pred_labels) (sample_i, output).
          pred_scores = map object_conf output \<and> pred_labels = map class_pred output
          \<and> length true_positives = length output
          \<and> (\<forall>i<length output. true_positives ! i = 0 \<or>
               (true_positives ! i = 1
                \<and> matchable iou_threshold (filter (\<lambda>t. sample_index t = real sample_i) targets)
                     (output ! i))))
        batch_metrics (present sample_i outputs)"
proof (induction outputs arbitrary: sample_i)
  case Nil
  then show ?case by simp
next
  case (Cons out outputs)
  show ?case
  proof (cases out)
    case None
    with Cons.IH [of "Suc sample_i"] show ?thesis
      by simp
  next
    case (Some dets)
    let ?annotations = "filter (\<lambda>t. sample_index t = real sample_i) targets"
    from image_flags [OF refl, of ?annotations iou_threshold dets] obtain tps' where
      r: "(if ?annotations \<noteq> []
              then match_loop iou_threshold ?annotations (enumerate 0 dets) []
                     (replicate (length dets) 0)
              else Inr (replicate (length dets) 0)) = Inr tps'"
      and p: "length tps' = length dets"
        "\<forall>i<length dets. tps' ! i = 0 \<or>
          (tps' ! i = 1 \<and> matchable iou_threshold ?annotations (dets ! i))"
      by blast
    from Cons.IH [of "Suc sample_i"] obtain batch_metrics where
      b: "batch_loop targets iou_threshold (Suc sample_i) outputs = Inr batch_metrics"
      and q: "list_all2 (\<lambda>(true_positives, pred_scores, pred_labels) (sample_i, output).
          pred_scores = map object_conf output \<and> pred_labels = map class_pred output
          \<and> length true_positives = length output
          \<and> (\<forall>i<length output. true_positives ! i = 0 \<or>
               (true_positives ! i = 1
                \<and> matchable iou_threshold (filter (\<lambda>t. sample_index t = real sample_i) targets)
                     (output ! i))))
        batch_metrics (present (Suc sample_i) outputs)"
      by blast
    have "batch_loop targets iou_threshold sample_i (out # outputs)
        = Inr ((tps', map object_conf dets, map class_pred dets) # batch_metrics)"
      unfolding Some batch_loop.simps Let_def r b by simp
    with p q show ?thesis
      by (simp add: Some)
  qed
qed

text \<open>
  Claim C3, as stated, has a ground-truth box matched only by a detection of its own
  class. The source looks for the best IoU over all the boxes of the image, whatever
  their class; the class of the detection is only required to occur among the labels
  of the image. Below, the image has a box of class 0 far away and a box of class 1 at
  \<open>(10, 10, 20, 20)\<close>. The first detection, of class 0, lies on the box of class 1 and
  has IoU 0 with the box of its own class: it is counted as a true positive and takes
  the box of class 1, and the second detection, of class 1 and on its own box, is not.
\<close>

theorem get_batch_statistics_wrong_class_counterexample:
  "get_batch_statistics
     [Some [\<lparr>coords = Some (10, 10, 20, 20), object_conf = 9 / 10, class_score = 4 / 5, class_pred = 0\<rparr>,
            \<lparr>coords = Some (10, 10, 20, 20), object_conf = 4 / 5, class_score = 4 / 5, class_pred = 1\<rparr>]]
     [\<lparr>sample_index = 0, target_label = 0, target_box = (100, 100, 120, 120)\<rparr>,
      \<lparr>sample_index = 0, target_label = 1, target_box = (10, 10, 20, 20)\<rparr>]
     (1 / 2)
   = Inr [([1, 0], [9 / 10, 4 / 5], [0, 1])]
   \<and> bbox_iou (10, 10, 20, 20) (100, 100, 120, 120) True = 0"
  by (simp add: get_batch_statistics_def enumerate_eq_zip clamp_min_def eps_def Let_def)

text \<open>
  Claim C3, amended: \<^verbatim>\<open>get_batch_statistics\<close> returns one entry for each image that has
  detections, with the objectness and the class of its detections and one flag for each
  detection. A flag is 0 or 1, and it is 1 only for a detection that can be matched:
  its class occurs among the labels of the ground-truth boxes of the image, and the
  box of largest IoU with it among the ground-truth boxes of the image, of whatever
  class, reaches \<^verbatim>\<open>iou_threshold\<close> with it.
\<close>

theorem get_batch_statistics_flags:
  "\<exists>batch_metrics. get_batch_statistics outputs targets iou_threshold = Inr batch_metrics
     \<and> list_all2 (\<lambda>(true_positives, pred_scores, pred_labels) (sample_i, output).
          pred_scores = map object_conf output \<and> pred_labels = map class_pred output
          \<and> length true_positives = length output
          \<and> (\<forall>i<length output. true_positives ! i = 0 \<or>
               (true_positives ! i = 1
                \<and> matchable iou_threshold (filter (\<lambda>t. sample_index t = real sample_i) targets)
                     (output ! i))))
        batch_metrics (present 0 outputs)"
  unfolding get_batch_statistics_def by (rule batch_loop_flags)

theorem get_batch_statistics_flags_witness:
  "present 0
     [Some [\<lparr>coords = Some (10, 10, 20, 20), object_conf = 9 / 10, class_score = 4 / 5, class_pred = 0\<rparr>,
            \<lparr>coords = Some (10, 10, 20, 20), object_conf = 4 / 5, class_score = 4 / 5, class_pred = 1\<rparr>]]
   = [(0, [\<lparr>coords = Some (10, 10, 20, 20), object_conf = 9 / 10, class_score = 4 / 5, class_pred = 0\<rparr>,
           \<lparr>coords = Some (10, 10, 20, 20), object_conf = 4 / 5, class_score = 4 / 5, class_pred = 1\<rparr>])]
   \<and> (\<exists>true_positives.
        get_batch_statistics
          [Some [\<lparr>coords = Some (10, 10, 20, 20), object_conf = 9 / 10, class_score = 4 / 5, class_pred = 0\<rparr>,
                 \<lparr>coords = Some (10, 10, 20, 20), object_conf = 4 / 5, class_score = 4 / 5, class_pred = 1\<rparr>]]
          [\<lparr>sample_index = 0, target_label = 0, target_box = (100, 100, 120, 120)\<rparr>,
           \<lparr>sample_index = 0, target_label = 1, target_box = (10, 10, 20, 20)\<rparr>]
          (1 / 2)
        = Inr [(true_positives, [9 / 10, 4 / 5], [0, 1])]
        \<and> length true_positives = 2
        \<and> (true_positives ! 0 = 0 \<or>
             (true_positives ! 0 = 1
              \<and> matchable (1 / 2)
                   [\<lparr>sample_index = 0, target_label = 0, target_box = (100, 100, 120, 120)\<rparr>,
                    \<lparr>sample_index = 0, target_label = 1, target_box = (10, 10, 20, 20)\<rparr>]
                   \<lparr>coords = Some (10, 10, 20, 20), object_conf = 9 / 10, class_score = 4 / 5,
                     class_pred = 0\<rparr>)))"
  using get_batch_statistics_flags
    [of "[Some [\<lparr>coords = Some (10, 10, 20, 20), object_conf = 9 / 10, class_score = 4 / 5, class_pred = 0\<rparr>,
                \<lparr>coords = Some (10, 10, 20, 20), object_conf = 4 / 5, class_score = 4 / 5, class_pred = 1\<rparr>]]"
        "[\<lparr>sample_index = 0, target_label = 0, target_box = (100, 100, 120, 120)\<rparr>,
          \<lparr>sample_index = 0, target_label = 1, target_box = (10, 10, 20, 20)\<rparr>]"
        "1 / 2"]
  by (auto simp: list_all2_Cons2)

section \<open>Target assignment: the claims on \<^verbatim>\<open>build_targets\<close>\<close>

subsection \<open>The library operations\<close>

lemma index_put_Cons: "index_put (kv # writes) t = index_put writes (t(fst kv := snd kv))"
  by (simp add: index_put_def)

lemma index_put_other:
  assumes "k \<notin> fst ` set writes"
  shows "index_put writes t k = t k"
  using assms by (induction writes arbitrary: t) (simp_all add: index_put_def)

lemma index_put_const_keep:
  assumes "\<forall>kv\<in>set writes. snd kv = c" and "t k = c"
  shows "index_put writes t k = c"
  using assms by (induction writes arbitrary: t) (simp_all add: index_put_def)

lemma index_put_const:
  assumes "\<forall>kv\<in>set writes. snd kv = c" and "k \<in> fst ` set writes"
  shows "index_put writes t k = c"
  using assms
proof (induction writes arbitrary: t)
  case Nil
  then show ?case by simp
next
  case (Cons kv writes)
  show ?case
  proof (cases "k = fst kv")
    case True
    with Cons.prems(1) have "(t(fst kv := snd kv)) k = c" by simp
    with Cons.prems(1) show ?thesis
      by (simp add: index_put_Cons index_put_const_keep)
  next
    case False
    with Cons show ?thesis
      by (simp add: index_put_Cons)
  qed
qed

lemma index_put_last:
  assumes "i < length writes"
    and "\<forall>j. i < j \<and> j < length writes \<longrightarrow> fst (writes ! j) \<noteq> fst (writes ! i)"
  shows "index_put writes t (fst (writes ! i)) = snd (writes ! i)"
  using assms
proof (induction writes arbitrary: t i)
  case Nil
  then show ?case by simp
next
  case (Cons kv writes)
  show ?case
  proof (cases i)
    case 0
    have "fst kv \<notin> fst ` set writes"
    proof
      assume "fst kv \<in> fst ` set writes"
      then obtain j where "j < length writes" "fst (writes ! j) = fst kv"
        by (auto simp: in_set_conv_nth)
      with Cons.prems(2) [rule_format, of "Suc j"] 0 show False
        by simp
    qed
    with 0 show ?thesis
      by (simp add: index_put_Cons index_put_other)
  next
    case (Suc i')
    have "\<forall>j. i' < j \<and> j < length writes \<longrightarrow> fst (writes ! j) \<noteq> fst (writes ! i')"
    proof (intro allI impI)
      fix j assume "i' < j \<and> j < length writes"
      with Cons.prems(2) [rule_format, of "Suc j"] Suc show "fst (writes ! j) \<noteq> fst (writes ! i')"
        by simp
    qed
    moreover have "i' < length writes"
      using Cons.prems(1) Suc by simp
    ultimately have "index_put writes (t(fst kv := snd kv)) (fst (writes ! i')) = snd (writes ! i')"
      by (intro Cons.IH)
    with Suc show ?thesis
      by (simp only: index_put_Cons nth_Cons_Suc)
  qed
qed

lemma those_map_Some:
  assumes "those (map f xs) = Some ys"
  shows "length ys = length xs \<and> (\<forall>i<length xs. f (xs ! i) = Some (ys ! i))"
  using assms
proof (induction xs arbitrary: ys)
  case Nil
  then show ?case by simp
next
  case (Cons x xs)
  then obtain y ys' where y: "f x = Some y" and ys': "those (map f xs) = Some ys'" and ys: "ys = y # ys'"
    by (auto split: option.splits)
  from Cons.IH [OF ys'] y ys show ?case
    by (auto simp: nth_Cons')
qed

lemma tensor_index_nonneg:
  assumes "tensor_index n i = Some m" and "0 \<le> i"
  shows "m = nat i"
  using assms by (auto simp: tensor_index_def split: if_splits)

lemma long_nonneg: "0 \<le> x \<Longrightarrow> long x = \<lfloor>x\<rfloor>"
  by (simp add: long_def)

subsection \<open>The targets at the place of a ground-truth box\<close>

lemma build_targets_Inr:
  assumes "build_targets pred_boxes pred_cls nB nA nG nC target anchors ignore_thres = Inr T"
  shows "\<exists>places. those (map (target_place nB nA nG anchors) target) = Some places
     \<and> obj_mask T = index_put (map (\<lambda>row. (snd row, 1)) (zip target places)) (\<lambda>_. 0)
     \<and> noobj_mask T = index_put (concat (map (ignore_writes anchors nG ignore_thres) (zip target places)))
          (index_put (map (\<lambda>row. (snd row, 0)) (zip target places)) (\<lambda>_. 1))
     \<and> tx T = index_put (map (\<lambda>row. (snd row, fst (target_boxes nG (fst row))
            - real_of_int \<lfloor>fst (target_boxes nG (fst row))\<rfloor>)) (zip target places)) (\<lambda>_. 0)
     \<and> ty T = index_put (map (\<lambda>row. (snd row, fst (snd (target_boxes nG (fst row)))
            - real_of_int \<lfloor>fst (snd (target_boxes nG (fst row)))\<rfloor>)) (zip target places)) (\<lambda>_. 0)
     \<and> tw T = index_put (map (\<lambda>row. (snd row,
            ln (fst (snd (snd (target_boxes nG (fst row)))) / fst (anchors ! fst (snd (snd row))) + eps)))
            (zip target places)) (\<lambda>_. 0)
     \<and> th T = index_put (map (\<lambda>row. (snd row,
            ln (snd (snd (snd (target_boxes nG (fst row)))) / snd (anchors ! fst (snd (snd row))) + eps)))
            (zip target places)) (\<lambda>_. 0)"
proof -
  from assms obtain places where
    p: "those (map (target_place nB nA nG anchors) target) = Some places"
    by (auto simp: build_targets_def split: if_splits option.splits)
  from assms p obtain labels where
    l: "those (map (\<lambda>t. tensor_index nC (long (target_label t))) target) = Some labels"
    by (auto simp: build_targets_def split: if_splits option.splits)
  from assms have c: "anchors \<noteq> []" "\<not> (target \<noteq> [] \<and> length anchors \<noteq> nA)" "nC \<noteq> 0"
    by (auto simp: build_targets_def p l split: if_splits)
  from assms show ?thesis
    unfolding build_targets_def p l option.case if_not_P [OF c(2)] if_not_P [OF c(3)] Let_def
    using c(1) by (intro exI [of _ places]) auto
qed

lemma target_place_nonneg:
  assumes "target_place nB nA nG anchors t = Some place"
    and "target_box t = (cx, cy, w, h)"
    and "0 \<le> sample_index t" and "0 \<le> cx" and "0 \<le> cy"
  shows "\<exists>best_iou best_n. best_anchor anchors nG t = Some (best_iou, best_n)
     \<and> place = (nat \<lfloor>sample_index t\<rfloor>, best_n, nat \<lfloor>cy * real nG\<rfloor>, nat \<lfloor>cx * real nG\<rfloor>)"
proof -
  have tb: "target_boxes nG t = (cx * real nG, cy * real nG, w * real nG, h * real nG)"
    using assms(2) by (simp add: target_boxes_def)
  from assms(1) obtain best_iou best_n where ba: "best_anchor anchors nG t = Some (best_iou, best_n)"
    by (auto simp: target_place_def tb split: option.splits)
  from assms(1) obtain b n gj gi where
    i: "tensor_index nB (long (sample_index t)) = Some b" "tensor_index nA (int best_n) = Some n"
       "tensor_index nG (long (cy * real nG)) = Some gj" "tensor_index nG (long (cx * real nG)) = Some gi"
    and pl: "place = (b, n, gj, gi)"
    by (auto simp: target_place_def tb ba split: option.splits)
  have "0 \<le> cx * real nG" "0 \<le> cy * real nG"
    using assms(4,5) by simp_all
  then have "b = nat \<lfloor>sample_index t\<rfloor>" "n = best_n" "gj = nat \<lfloor>cy * real nG\<rfloor>" "gi = nat \<lfloor>cx * real nG\<rfloor>"
    using i assms(3) tensor_index_nonneg [OF i(1)] tensor_index_nonneg [OF i(2)]
      tensor_index_nonneg [OF i(3)] tensor_index_nonneg [OF i(4)]
    by (simp_all add: long_nonneg)
  with ba pl show ?thesis by simp
qed

lemma best_anchor_maximal:
  assumes "best_anchor anchors nG t = Some (best_iou, best_n)"
    and "target_box t = (cx, cy, w, h)"
  shows "best_n < length anchors
     \<and> bbox_wh_iou (anchors ! best_n) (w * real nG, h * real nG) = best_iou
     \<and> (\<forall>a\<in>set anchors. bbox_wh_iou a (w * real nG, h * real nG) \<le> best_iou)"
proof -
  have "anchor_ious anchors nG t = map (\<lambda>anchor. bbox_wh_iou anchor (w * real nG, h * real nG)) anchors"
    using assms(2) by (simp add: anchor_ious_def target_boxes_def)
  with assms(1) have "torch_max (map (\<lambda>anchor. bbox_wh_iou anchor (w * real nG, h * real nG)) anchors)
      = Some (best_iou, best_n)"
    by (simp add: best_anchor_def)
  from torch_max_Some [OF this] show ?thesis
    by auto
qed

lemma ignore_writes_zero: "\<forall>kv\<in>set (concat (map (ignore_writes anchors nG ignore_thres) rows)). snd kv = 0"
  by (auto simp: ignore_writes_def split: prod.splits)

text \<open>
  Claim C2, amended. When \<^verbatim>\<open>build_targets\<close> returns, take a ground-truth row with a
  non-negative image index and centre. At its image, at the anchor of maximal
  size-only IoU with the box and at the grid cell whose row and column are the floors
  of the scaled centre, the object mask is 1 and the no-object mask is 0. If no later
  row is written to the same place, the offset targets \<open>tx\<close>, \<open>ty\<close> there are the
  fractional parts of the scaled centre and the scale targets \<open>tw\<close>, \<open>th\<close> are the
  natural logarithms of \<open>size / anchor size + 1e-16\<close>, for the width and for the height.
\<close>

theorem build_targets_primary:
  assumes ok: "build_targets pred_boxes pred_cls nB nA nG nC target anchors ignore_thres = Inr T"
    and k: "k < length target"
    and box: "target_box (target ! k) = (cx, cy, w, h)"
    and nonneg: "0 \<le> sample_index (target ! k)" "0 \<le> cx" "0 \<le> cy"
  shows "\<exists>best_iou best_n.
      best_anchor anchors nG (target ! k) = Some (best_iou, best_n)
    \<and> best_n < length anchors
    \<and> bbox_wh_iou (anchors ! best_n) (w * real nG, h * real nG) = best_iou
    \<and> (\<forall>a\<in>set anchors. bbox_wh_iou a (w * real nG, h * real nG) \<le> best_iou)
    \<and> obj_mask T (nat \<lfloor>sample_index (target ! k)\<rfloor>, best_n, nat \<lfloor>cy * real nG\<rfloor>, nat \<lfloor>cx * real nG\<rfloor>) = 1
    \<and> noobj_mask T (nat \<lfloor>sample_index (target ! k)\<rfloor>, best_n, nat \<lfloor>cy * real nG\<rfloor>, nat \<lfloor>cx * real nG\<rfloor>) = 0
    \<and> ((\<forall>j. k < j \<and> j < length target \<longrightarrow>
           target_place nB nA nG anchors (target ! j) \<noteq> target_place nB nA nG anchors (target ! k)) \<longrightarrow>
         tx T (nat \<lfloor>sample_index (target ! k)\<rfloor>, best_n, nat \<lfloor>cy * real nG\<rfloor>, nat \<lfloor>cx * real nG\<rfloor>)
           = cx * real nG - real_of_int \<lfloor>cx * real nG\<rfloor>
       \<and> ty T (nat \<lfloor>sample_index (target ! k)\<rfloor>, best_n, nat \<lfloor>cy * real nG\<rfloor>, nat \<lfloor>cx * real nG\<rfloor>)
           = cy * real nG - real_of_int \<lfloor>cy * real nG\<rfloor>
       \<and> tw T (nat \<lfloor>sample_index (target ! k)\<rfloor>, best_n, nat \<lfloor>cy * real nG\<rfloor>, nat \<lfloor>cx * real nG\<rfloor>)
           = ln (w * real nG / fst (anchors ! best_n) + eps)
       \<and> th T (nat \<lfloor>sample_index (target ! k)\<rfloor>, best_n, nat \<lfloor>cy * real nG\<rfloor>, nat \<lfloor>cx * real nG\<rfloor>)
           = ln (h * real nG / snd (anchors ! best_n) + eps))"
proof -
  let ?t = "target ! k"
  from build_targets_Inr [OF ok] obtain places where
    p: "those (map (target_place nB nA nG anchors) target) = Some places"
    and om: "obj_mask T = index_put (map (\<lambda>row. (snd row, 1)) (zip target places)) (\<lambda>_. 0)"
    and nm: "noobj_mask T = index_put (concat (map (ignore_writes anchors nG ignore_thres) (zip target places)))
          (index_put (map (\<lambda>row. (snd row, 0)) (zip target places)) (\<lambda>_. 1))"
    and x: "tx T = index_put (map (\<lambda>row. (snd row, fst (target_boxes nG (fst row))
            - real_of_int \<lfloor>fst (target_boxes nG (fst row))\<rfloor>)) (zip target places)) (\<lambda>_. 0)"
    and y: "ty T = index_put (map (\<lambda>row. (snd row, fst (snd (target_boxes nG (fst row)))
            - real_of_int \<lfloor>fst (snd (target_boxes nG (fst row)))\<rfloor>)) (zip target places)) (\<lambda>_. 0)"
    and w: "tw T = index_put (map (\<lambda>row. (snd row,
            ln (fst (snd (snd (target_boxes nG (fst row)))) / fst (anchors ! fst (snd (snd row))) + eps)))
            (zip target places)) (\<lambda>_. 0)"
    and h: "th T = index_put (map (\<lambda>row. (snd row,
            ln (snd (snd (snd (target_boxes nG (fst row)))) / snd (anchors ! fst (snd (snd row))) + eps)))
            (zip target places)) (\<lambda>_. 0)"
    by blast
  let ?rows = "zip target places"
  from those_map_Some [OF p] have len: "length places = length target"
    and pl: "\<And>i. i < length target \<Longrightarrow> target_place nB nA nG anchors (target ! i) = Some (places ! i)"
    by simp_all
  from target_place_nonneg [OF pl [OF k] box nonneg] obtain best_iou best_n where
    ba: "best_anchor anchors nG ?t = Some (best_iou, best_n)"
    and place: "places ! k = (nat \<lfloor>sample_index ?t\<rfloor>, best_n, nat \<lfloor>cy * real nG\<rfloor>, nat \<lfloor>cx * real nG\<rfloor>)"
    by blast
  let ?place = "(nat \<lfloor>sample_index ?t\<rfloor>, best_n, nat \<lfloor>cy * real nG\<rfloor>, nat \<lfloor>cx * real nG\<rfloor>)"
  have tb: "target_boxes nG ?t = (cx * real nG, cy * real nG, w * real nG, h * real nG)"
    using box by (simp add: target_boxes_def)
  have row: "?rows ! k = (?t, ?place)" and klen: "k < length ?rows"
    using k len place by simp_all
  have mem: "?place \<in> fst ` set (map (\<lambda>row. (snd row, c)) ?rows)" for c :: "'c"
  proof -
    have "(?t, ?place) \<in> set ?rows"
      using row klen by (metis nth_mem)
    then show ?thesis by force
  qed
  have obj: "obj_mask T ?place = 1"
    unfolding om by (rule index_put_const [OF _ mem]) simp
  have "index_put (map (\<lambda>row. (snd row, 0)) ?rows) (\<lambda>_. 1 :: 8 word) ?place = 0"
    by (rule index_put_const [OF _ mem]) simp
  then have noobj: "noobj_mask T ?place = 0"
    unfolding nm by (rule index_put_const_keep [OF ignore_writes_zero])
  have last: "index_put (map (\<lambda>row. (snd row, v row)) ?rows) (\<lambda>_. 0) ?place = v (?t, ?place)"
    if "\<forall>j. k < j \<and> j < length target \<longrightarrow>
           target_place nB nA nG anchors (target ! j) \<noteq> target_place nB nA nG anchors (target ! k)"
    for v :: "target_row \<times> idx \<Rightarrow> real"
  proof -
    let ?w = "map (\<lambda>row. (snd row, v row)) ?rows"
    have kw: "k < length ?w"
      using klen by simp
    have other: "\<forall>j. k < j \<and> j < length ?w \<longrightarrow> fst (?w ! j) \<noteq> fst (?w ! k)"
    proof (intro allI impI)
      fix j assume j: "k < j \<and> j < length ?w"
      then have jt: "j < length target" by simp
      with that j have "target_place nB nA nG anchors (target ! j) \<noteq> target_place nB nA nG anchors (target ! k)"
        by blast
      with pl [OF jt] pl [OF k] have "places ! j \<noteq> places ! k"
        by simp
      with jt k len show "fst (?w ! j) \<noteq> fst (?w ! k)"
        by simp
    qed
    from index_put_last [OF kw other, of "\<lambda>_. 0"] row klen show ?thesis
      by simp
  qed
  from ba best_anchor_maximal [OF ba box] obj noobj show ?thesis
    unfolding x y w h
    by (intro exI [of _ best_iou] exI [of _ best_n] conjI impI; (simp add: last tb)?)
qed

lemma build_targets_collision_example:
  "case build_targets (\<lambda>_. (0, 0, 1, 1)) (\<lambda>_ _. 0) 1 1 2 1
       [\<lparr>sample_index = 0, target_label = 0, target_box = (1 / 10, 1 / 10, 1 / 2, 1 / 2)\<rparr>,
        \<lparr>sample_index = 0, target_label = 0, target_box = (3 / 10, 3 / 10, 1 / 2, 1 / 2)\<rparr>]
       [(1, 1)] (1 / 2) of
     Inl e \<Rightarrow> False
   | Inr T \<Rightarrow> tx T (0, 0, 0, 0) = 3 / 5"
  by (simp add: build_targets_def target_place_def best_anchor_def anchor_ious_def
      target_boxes_def tensor_index_def long_def index_put_def eps_def ignore_writes_def Let_def)

text \<open>
  Claim C2, as stated, gives every ground-truth box its own offset targets. Two boxes
  of one image that fall into the same cell with the same best anchor share one place,
  and the later row overwrites the earlier one: at the place of the first box below,
  \<open>tx\<close> is \<open>3/5\<close>, the fractional part for the second box, not \<open>1/5\<close>.
\<close>

theorem build_targets_overwrite_counterexample:
  "\<exists>T. build_targets (\<lambda>_. (0, 0, 1, 1)) (\<lambda>_ _. 0) 1 1 2 1
       [\<lparr>sample_index = 0, target_label = 0, target_box = (1 / 10, 1 / 10, 1 / 2, 1 / 2)\<rparr>,
        \<lparr>sample_index = 0, target_label = 0, target_box = (3 / 10, 3 / 10, 1 / 2, 1 / 2)\<rparr>]
       [(1, 1)] (1 / 2) = Inr T
     \<and> target_place 1 1 2 [(1, 1)]
          \<lparr>sample_index = 0, target_label = 0, target_box = (1 / 10, 1 / 10, 1 / 2, 1 / 2)\<rparr>
         = Some (0, 0, nat \<lfloor>1 / 10 * 2 :: real\<rfloor>, nat \<lfloor>1 / 10 * 2 :: real\<rfloor>)
     \<and> tx T (0, 0, nat \<lfloor>1 / 10 * 2 :: real\<rfloor>, nat \<lfloor>1 / 10 * 2 :: real\<rfloor>)
         \<noteq> 1 / 10 * 2 - real_of_int \<lfloor>1 / 10 * 2 :: real\<rfloor>"
proof -
  have "target_place 1 1 2 [(1, 1)]
          \<lparr>sample_index = 0, target_label = 0, target_box = (1 / 10, 1 / 10, 1 / 2, 1 / 2)\<rparr>
         = Some (0, 0, nat \<lfloor>1 / 10 * 2 :: real\<rfloor>, nat \<lfloor>1 / 10 * 2 :: real\<rfloor>)"
    by (simp add: target_place_def best_anchor_def anchor_ious_def target_boxes_def
        tensor_index_def long_def)
  with build_targets_collision_example show ?thesis
    by (cases "build_targets (\<lambda>_. (0, 0, 1, 1)) (\<lambda>_ _. 0) 1 1 2 1
       [\<lparr>sample_index = 0, target_label = 0, target_box = (1 / 10, 1 / 10, 1 / 2, 1 / 2)\<rparr>,
        \<lparr>sample_index = 0, target_label = 0, target_box = (3 / 10, 3 / 10, 1 / 2, 1 / 2)\<rparr>]
       [(1, 1)] (1 / 2)") simp_all
qed

theorem build_targets_primary_witness:
  "\<exists>T. build_targets (\<lambda>_. (0, 0, 1, 1)) (\<lambda>_ _. 0) 1 1 2 1
       [\<lparr>sample_index = 0, target_label = 0, target_box = (1 / 10, 1 / 10, 1 / 2, 1 / 2)\<rparr>,
        \<lparr>sample_index = 0, target_label = 0, target_box = (3 / 10, 3 / 10, 1 / 2, 1 / 2)\<rparr>]
       [(1, 1)] (1 / 2) = Inr T
     \<and> obj_mask T (0, 0, 0, 0) = 1 \<and> noobj_mask T (0, 0, 0, 0) = 0
     \<and> tx T (0, 0, 0, 0) = 3 / 5 \<and> ty T (0, 0, 0, 0) = 3 / 5
     \<and> tw T (0, 0, 0, 0) = ln (1 + eps) \<and> th T (0, 0, 0, 0) = ln (1 + eps)"
proof -
  let ?target = "[\<lparr>sample_index = 0, target_label = 0, target_box = (1 / 10, 1 / 10, 1 / 2, 1 / 2)\<rparr>,
        \<lparr>sample_index = 0, target_label = 0, target_box = (3 / 10, 3 / 10, 1 / 2, 1 / 2)\<rparr>]"
  from build_targets_collision_example obtain T where
    T: "build_targets (\<lambda>_. (0, 0, 1, 1)) (\<lambda>_ _. 0) 1 1 2 1 ?target [(1, 1)] (1 / 2) = Inr T"
    by (cases "build_targets (\<lambda>_. (0, 0, 1, 1)) (\<lambda>_ _. 0) 1 1 2 1 ?target [(1, 1)] (1 / 2)")
      simp_all
  have k: "1 < length ?target" by simp
  have box: "target_box (?target ! 1) = (3 / 10, 3 / 10, 1 / 2, 1 / 2)" by simp
  have nonneg: "0 \<le> sample_index (?target ! 1)" "(0 :: real) \<le> 3 / 10" by simp_all
  have last: "\<forall>j. 1 < j \<and> j < length ?target \<longrightarrow>
      target_place 1 1 2 [(1, 1)] (?target ! j) \<noteq> target_place 1 1 2 [(1, 1)] (?target ! 1)"
    by simp
  have best: "\<exists>v. best_anchor [(1, 1)] 2 (?target ! 1) = Some (v, 0)"
    by (simp add: best_anchor_def anchor_ious_def target_boxes_def)
  from build_targets_primary [OF T k box nonneg(1) nonneg(2) nonneg(2)] last best
  have "obj_mask T (0, 0, 0, 0) = 1 \<and> noobj_mask T (0, 0, 0, 0) = 0
     \<and> tx T (0, 0, 0, 0) = 3 / 5 \<and> ty T (0, 0, 0, 0) = 3 / 5
     \<and> tw T (0, 0, 0, 0) = ln (1 + eps) \<and> th T (0, 0, 0, 0) = ln (1 + eps)"
    by auto
  with T show ?thesis by blast
qed

section \<open>Configuration\<close>

lemma nms_detections_none:
  assumes "\<forall>p\<in>set image_pred. obj_conf p < conf_thres"
  shows "nms_detections conf_thres image_pred = Inr []"
proof -
  have "filter (\<lambda>p. conf_thres \<le> obj_conf p) image_pred = []"
    using assms by (auto simp: filter_empty_conv)
  then show ?thesis
    by (simp add: nms_detections_def)
qed

lemma nms_images_none:
  assumes "\<forall>image\<in>set batch. \<forall>p\<in>set image. obj_conf p < conf_thres"
  shows "nms_images conf_thres nms_thres batch = Some (Inr (replicate (length batch) None))"
  using assms
  by (induction batch) (simp_all add: nms_image_def nms_detections_none nms_loop_Nil)

text \<open>
  Claim C7, as stated, has \<^verbatim>\<open>non_max_suppression\<close> fail on a threshold outside
  \<open>[0, 1]\<close>. With \<^verbatim>\<open>conf_thres = 2\<close> it returns as usual: no candidate passes the
  filter and the image has no detections.
\<close>

theorem non_max_suppression_high_conf_thres_counterexample:
  "\<not> ((0 :: real) \<le> 2 \<and> (2 :: real) \<le> 1)
   \<and> non_max_suppression [[\<lparr>xywh = (10, 10, 4, 4), obj_conf = 9 / 10, cls_scores = [4 / 5]\<rparr>]]
        2 (4 / 10) = Some (Inr [None])"
  by (simp add: non_max_suppression_def nms_image_def nms_detections_def nms_loop_Nil)

text \<open>
  Claim C7, amended: neither function checks its configuration. For every
  \<^verbatim>\<open>nms_thres\<close> and every \<^verbatim>\<open>conf_thres\<close> above the objectness of all candidates (as any
  \<^verbatim>\<open>conf_thres > 1\<close> is for objectness in \<open>[0, 1]\<close>), \<^verbatim>\<open>non_max_suppression\<close> returns the
  list with no detections for any image. \<^verbatim>\<open>build_targets\<close> with no anchor raises the
  runtime error of \<^verbatim>\<open>torch.stack\<close>, and with a grid of size 0, no ground-truth row, an
  anchor and a class it returns its tensors.
\<close>

theorem no_configuration_check:
  assumes "\<forall>image\<in>set prediction. \<forall>p\<in>set image. obj_conf p < conf_thres"
  shows "non_max_suppression prediction conf_thres nms_thres
           = Some (Inr (replicate (length prediction) None))
    \<and> build_targets pred_boxes pred_cls nB nA nG nC target [] ignore_thres = Inl RuntimeError
    \<and> (\<forall>anchors. anchors \<noteq> [] \<and> 0 < nC \<longrightarrow>
         (\<exists>T. build_targets pred_boxes pred_cls nB nA 0 nC [] anchors ignore_thres = Inr T))"
proof -
  let ?batch = "map (map (\<lambda>p. p\<lparr>xywh := xywh2xyxy (xywh p)\<rparr>)) prediction"
  have "\<forall>image\<in>set ?batch. \<forall>p\<in>set image. obj_conf p < conf_thres"
    using assms by auto
  from nms_images_none [OF this, of nms_thres]
  have "non_max_suppression prediction conf_thres nms_thres
           = Some (Inr (replicate (length prediction) None))"
    by (simp add: non_max_suppression_def)
  moreover have "build_targets pred_boxes pred_cls nB nA nG nC target [] ignore_thres = Inl RuntimeError"
    by (simp add: build_targets_def)
  moreover have "\<exists>T. build_targets pred_boxes pred_cls nB nA 0 nC [] anchors ignore_thres = Inr T"
    if "anchors \<noteq> [] \<and> 0 < nC" for anchors
    using that by (simp add: build_targets_def Let_def)
  ultimately show ?thesis
    by blast
qed

theorem no_configuration_check_witness:
  "non_max_suppression [[\<lparr>xywh = (10, 10, 4, 4), obj_conf = 9 / 10, cls_scores = [4 / 5]\<rparr>]] 2 (- 1)
     = Some (Inr [None])
   \<and> build_targets (\<lambda>_. (0, 0, 0, 0)) (\<lambda>_ _. 0) 1 1 0 1 [] [] (3 / 2) = Inl RuntimeError
   \<and> (\<exists>T. build_targets (\<lambda>_. (0, 0, 0, 0)) (\<lambda>_ _. 0) 1 1 0 1 [] [(1, 1)] (3 / 2) = Inr T)"
  using no_configuration_check [of
      "[[\<lparr>xywh = (10, 10, 4, 4), obj_conf = 9 / 10, cls_scores = [4 / 5]\<rparr>]]" 2 "- 1"
      "\<lambda>_. (0, 0, 0, 0)" "\<lambda>_ _. 0" 1 1 0 1 "[]" "3 / 2"]
  by simp

end
